theory Spec2Isabelle
  imports Complex_Main
begin

section \<open>Token Extractor: extraction, deduplication, naming and export of colours\<close>

text \<open>
  A shallow embedding of \<^verbatim>\<open>src/code.ts\<close>. Conventions of the embedding:

  \<^item> A number of the source is a binary floating-point number of 64 bits. It is modelled
    by the \<^typ>\<open>real\<close> it denotes, and each of the source's \<^verbatim>\<open>+\<close>, \<^verbatim>\<open>-\<close>, \<^verbatim>\<open>*\<close>, \<^verbatim>\<open>/\<close> on
    colour components, hues, saturations and lightnesses by the exact operation followed
    by the rounding \<open>fl\<close> to the nearest such number (\<open>fadd\<close>, \<open>fsub\<close>, \<open>fmul\<close>, \<open>fdiv\<close>).
    A decimal literal of the source that is not such a number (\<^verbatim>\<open>0.12\<close>) is rounded in the
    same way. Where the source only ever holds a whole number (a shade, a level, a rounded
    channel, a counter) the model has an \<^typ>\<open>int\<close> or a \<^typ>\<open>nat\<close>. The model has no
    infinities, no NaN and no negative zero: colour components are meant to be numbers of
    the host in the unit interval, and there no operation of the source overflows or
    divides by zero (\<open>rgbToHsl_divisors\<close> below).
  \<^item> A string is a \<^typ>\<open>string\<close>, the bytes of its UTF-8 encoding. The letters, digits and
    punctuation the source itself writes are all ASCII; only \<open>trim\<close> looks at other
    characters. (A string of the host with an unpaired surrogate has no such encoding
    and is not covered.)
  \<^item> The naming pattern is a \<^typ>\<open>string\<close>: the source's \<^verbatim>\<open>NamingPattern\<close> type is erased
    when the program runs, and the pattern arrives in a message from the panel, so the
    \<^verbatim>\<open>switch\<close> is a comparison of strings with a silent fall-through.
  \<^item> A plain object used as a dictionary is a map from keys to values, holding its own
    properties. The properties a plain object inherits from the host's
    \<^verbatim>\<open>Object.prototype\<close> show through in \<open>buildJson\<close> and are written out there, see
    \<open>objectPrototype\<close>; \<^verbatim>\<open>Object.prototype\<close> is taken as the host provides it when a call
    starts. The source runs in strict mode.
\<close>

subsection \<open>Numbers of the host language\<close>

text \<open>Rounding to the nearest integer, a tie going to the even one.\<close>

definition rte :: "real \<Rightarrow> int" where
  "rte x =
     (let f = \<lfloor>x\<rfloor>; d = x - of_int f
      in if d < 1 / 2 then f else if 1 / 2 < d then f + 1 else if even f then f else f + 1)"

text \<open>
  How often a number can be halved before it falls below 2, and how often it can be doubled
  before it reaches 1, counted up to a bound.
\<close>

fun halvings :: "nat \<Rightarrow> real \<Rightarrow> nat" where
  "halvings 0 x = 0"
| "halvings (Suc n) x = (if 2 \<le> x then Suc (halvings n (x / 2)) else 0)"

fun doublings :: "nat \<Rightarrow> real \<Rightarrow> nat" where
  "doublings 0 x = 0"
| "doublings (Suc n) x = (if x < 1 then Suc (doublings n (2 * x)) else 0)"

text \<open>
  The binary exponent of a number in the 64-bit format: the \<open>e\<close> with
  \<open>2 powi e \<le> \<bar>x\<bar> < 2 powi (e + 1)\<close>, kept between the least exponent \<open>-1022\<close> (below
  \<open>2 powi (-1022)\<close> the numbers of the format are equally spaced) and the greatest,
  \<open>1023\<close> (\<open>expo_unique\<close>, \<open>expo_subnormal\<close> below).
\<close>

definition expo :: "real \<Rightarrow> int" where
  "expo x = (if 1 \<le> \<bar>x\<bar> then int (halvings 1023 \<bar>x\<bar>) else - int (doublings 1022 \<bar>x\<bar>))"

text \<open>The spacing of the numbers of the format around \<open>x\<close>: 53 significant bits.\<close>

definition ulp :: "real \<Rightarrow> real" where
  "ulp x = 2 powi (expo x - 52)"

text \<open>
  The number of the format nearest to \<open>x\<close>, a tie going to the one with an even last bit:
  the rounding of every arithmetic operation of the host. (From \<open>2 ^ 1024\<close> on the host
  has infinity; the numbers below stay far from there.)
\<close>

definition fl :: "real \<Rightarrow> real" where
  "fl x = of_int (rte (x / ulp x)) * ulp x"

text \<open>A number of the format: the rounding leaves it as it is, and it lies below infinity.\<close>

definition is_double :: "real \<Rightarrow> bool" where
  "is_double x \<longleftrightarrow> fl x = x \<and> \<bar>x\<bar> < 2 ^ 1024"

text \<open>
  The four arithmetic operations of the host: the exact result, rounded. (A quotient by
  zero is an infinity or NaN for the host and 0 here; the divisors below are not zero.)
\<close>

definition fadd :: "real \<Rightarrow> real \<Rightarrow> real" where
  "fadd x y = fl (x + y)"

definition fsub :: "real \<Rightarrow> real \<Rightarrow> real" where
  "fsub x y = fl (x - y)"

definition fmul :: "real \<Rightarrow> real \<Rightarrow> real" where
  "fmul x y = fl (x * y)"

definition fdiv :: "real \<Rightarrow> real \<Rightarrow> real" where
  "fdiv x y = fl (x / y)"

text \<open>\<^verbatim>\<open>Math.round\<close>: the nearest integer, a tie going up.\<close>

definition Math_round :: "real \<Rightarrow> int" where
  "Math_round x = \<lfloor>x + 1 / 2\<rfloor>"

subsection \<open>Strings of the host language\<close>

definition digit_char :: "nat \<Rightarrow> char" where
  "digit_char d = ''0123456789abcdef'' ! d"

text \<open>The digits of a natural number in a radix from 2 to 16, most significant first.\<close>

function digits_of :: "nat \<Rightarrow> nat \<Rightarrow> string" where
  "digits_of radix n =
     (if n < radix \<or> radix < 2 then [digit_char n]
      else digits_of radix (n div radix) @ [digit_char (n mod radix)])"
  by pat_completeness auto
termination
  by (relation "measure (\<lambda>(radix, n). n)") auto

declare digits_of.simps [simp del]

text \<open>\<^verbatim>\<open>n.toString(radix)\<close> and the template conversion \<^verbatim>\<open>`${n}`\<close> of a whole number.\<close>

definition number_toString :: "nat \<Rightarrow> int \<Rightarrow> string" where
  "number_toString radix i =
     (if i < 0 then CHR ''-'' # digits_of radix (nat (- i)) else digits_of radix (nat i))"

text \<open>\<^verbatim>\<open>s.padStart(2, "0")\<close>.\<close>

definition padStart2 :: "string \<Rightarrow> string" where
  "padStart2 s = replicate (2 - length s) CHR ''0'' @ s"

text \<open>\<^verbatim>\<open>s.toUpperCase()\<close> on ASCII text.\<close>

definition upper_char :: "char \<Rightarrow> char" where
  "upper_char c =
     (case map_of (zip ''abcdefghijklmnopqrstuvwxyz'' ''ABCDEFGHIJKLMNOPQRSTUVWXYZ'') c of
        None \<Rightarrow> c | Some u \<Rightarrow> u)"

definition toUpperCase :: "string \<Rightarrow> string" where
  "toUpperCase s = map upper_char s"

text \<open>
  The white space and line terminators of the host language, each by its UTF-8 bytes:
  U+0009 to U+000D, U+0020, U+00A0, U+1680, U+2000 to U+200A, U+2028, U+2029, U+202F,
  U+205F, U+3000 and U+FEFF.
\<close>

definition whiteSpace :: "string list" where
  "whiteSpace =
     [[CHR 0x09], [CHR 0x0A], [CHR 0x0B], [CHR 0x0C], [CHR 0x0D], [CHR 0x20],
      [CHR 0xC2, CHR 0xA0], [CHR 0xE1, CHR 0x9A, CHR 0x80]] @
     map (\<lambda>c. [CHR 0xE2, CHR 0x80, c])
       [CHR 0x80, CHR 0x81, CHR 0x82, CHR 0x83, CHR 0x84, CHR 0x85, CHR 0x86, CHR 0x87,
        CHR 0x88, CHR 0x89, CHR 0x8A, CHR 0xA8, CHR 0xA9, CHR 0xAF] @
     [[CHR 0xE2, CHR 0x81, CHR 0x9F], [CHR 0xE3, CHR 0x80, CHR 0x80],
      [CHR 0xEF, CHR 0xBB, CHR 0xBF]]"

text \<open>The string without the members of \<open>ws\<close> it starts with.\<close>

function stripStart :: "string list \<Rightarrow> string \<Rightarrow> string" where
  "stripStart ws s =
     (case find (\<lambda>w. w \<noteq> [] \<and> take (length w) s = w) ws of
        None \<Rightarrow> s
      | Some w \<Rightarrow> stripStart ws (drop (length w) s))"
  by pat_completeness auto
termination
proof (relation "measure (\<lambda>(ws, s). length s)")
  show "wf (measure (\<lambda>(ws, s). length s))" by simp
next
  fix ws :: "string list" and s w :: string
  assume "find (\<lambda>w. w \<noteq> [] \<and> take (length w) s = w) ws = Some w"
  then have "w \<noteq> []" "take (length w) s = w"
    by (auto simp: find_Some_iff)
  then have "s \<noteq> []" by auto
  with \<open>w \<noteq> []\<close> show "((ws, drop (length w) s), (ws, s)) \<in> measure (\<lambda>(ws, s). length s)"
    by simp
qed

declare stripStart.simps [simp del]

text \<open>\<^verbatim>\<open>s.trim()\<close>: white space and line terminators are removed from both ends.\<close>

definition trim :: "string \<Rightarrow> string" where
  "trim s = rev (stripStart (map rev whiteSpace) (rev (stripStart whiteSpace s)))"

text \<open>\<^verbatim>\<open>s.split("-")\<close>: the segments between the separators, never an empty list.\<close>

fun split_on :: "char \<Rightarrow> string \<Rightarrow> string list" where
  "split_on sep [] = [[]]"
| "split_on sep (c # cs) =
     (if c = sep then [] # split_on sep cs
      else (case split_on sep cs of
              [] \<Rightarrow> [[c]]
            | p # ps \<Rightarrow> (c # p) # ps))"

text \<open>\<^verbatim>\<open>parts.join("-")\<close>.\<close>

fun join_with :: "char \<Rightarrow> string list \<Rightarrow> string" where
  "join_with sep [] = []"
| "join_with sep [p] = p"
| "join_with sep (p # q # ps) = p @ sep # join_with sep (q # ps)"

subsection \<open>Colour samples\<close>

datatype Source = Fill | Stroke | Text

record ExtractedColor =
  hex :: string
  r :: real
  g :: real
  b :: real
  a :: real
  source :: Source
  tokenName :: string

subsection \<open>Colour extraction\<close>

definition toHex :: "real \<Rightarrow> string" where
  "toHex n = padStart2 (number_toString 16 (Math_round (fmul n 255)))"

definition rgbToHex :: "real \<Rightarrow> real \<Rightarrow> real \<Rightarrow> string" where
  "rgbToHex cr cg cb = toUpperCase (CHR ''#'' # toHex cr @ toHex cg @ toHex cb)"

text \<open>
  A paint of the host: its \<^verbatim>\<open>type\<close>, the optional \<^verbatim>\<open>visible\<close> flag, the optional
  \<^verbatim>\<open>opacity\<close>, and the \<^verbatim>\<open>color\<close> triple (read only when the paint is solid).
\<close>

datatype Paint =
  Paint (paint_type: string) (visible: "bool option") (opacity: "real option")
    (color: "real \<times> real \<times> real")

definition extractPaint :: "Paint \<Rightarrow> Source \<Rightarrow> ExtractedColor option" where
  "extractPaint paint src =
     (if paint_type paint \<noteq> ''SOLID'' \<or> visible paint = Some False then None
      else (case color paint of (cr, cg, cb) \<Rightarrow>
        Some \<lparr>hex = rgbToHex cr cg cb, r = cr, g = cg, b = cb,
              a = (case opacity paint of None \<Rightarrow> 1 | Some op \<Rightarrow> op),
              source = src, tokenName = ''''\<rparr>))"

text \<open>The loop \<^verbatim>\<open>for (const p of paints) { const c = extractPaint(p, src); if (c) colors.push(c) }\<close>.\<close>

definition extractPaints :: "Paint list \<Rightarrow> Source \<Rightarrow> ExtractedColor list" where
  "extractPaints paints src = List.map_filter (\<lambda>p. extractPaint p src) paints"

text \<open>
  A node of the host's tree: its \<^verbatim>\<open>type\<close>; \<^verbatim>\<open>fills\<close> and \<^verbatim>\<open>strokes\<close>, \<open>Some\<close> list when
  the node has the property and it is an array, \<open>None\<close> otherwise (absent, or the host's
  "mixed" marker); \<^verbatim>\<open>children\<close>, \<open>None\<close> when the node has no such property.
\<close>

datatype SceneNode =
  SceneNode (node_type: string) (fills: "Paint list option") (strokes: "Paint list option")
    (children: "SceneNode list option")

fun extractColorsFromNode :: "SceneNode \<Rightarrow> ExtractedColor list" where
  "extractColorsFromNode (SceneNode ty fs ss cs) =
     (case fs of None \<Rightarrow> [] | Some paints \<Rightarrow> extractPaints paints Fill) @
     (case ss of None \<Rightarrow> [] | Some paints \<Rightarrow> extractPaints paints Stroke) @
     (if ty = ''TEXT'' then (case fs of None \<Rightarrow> [] | Some paints \<Rightarrow> extractPaints paints Text)
      else []) @
     (case cs of None \<Rightarrow> [] | Some nodes \<Rightarrow> concat (map extractColorsFromNode nodes))"

text \<open>
  \<open>deduplicateColors\<close>: the filter callback reads and extends the set \<^verbatim>\<open>seen\<close>; the set is
  threaded through the traversal.
\<close>

fun filter_unseen :: "string set \<Rightarrow> ExtractedColor list \<Rightarrow> ExtractedColor list" where
  "filter_unseen seen [] = []"
| "filter_unseen seen (c # cs) =
     (if hex c \<in> seen then filter_unseen seen cs
      else c # filter_unseen (insert (hex c) seen) cs)"

definition deduplicateColors :: "ExtractedColor list \<Rightarrow> ExtractedColor list" where
  "deduplicateColors colors = filter_unseen {} colors"

subsection \<open>Hue, saturation, lightness; roles and shades\<close>

text \<open>
  \<open>rgbToHsl\<close>, operation by operation in the order the source evaluates them:
  \<^verbatim>\<open>2 - max - min\<close> is \<^verbatim>\<open>(2 - max) - min\<close>, and the hue is divided by 6 and then
  multiplied by 360. \<^verbatim>\<open>Math.max\<close>, \<^verbatim>\<open>Math.min\<close> and the comparisons are exact.
\<close>

definition rgbToHsl :: "real \<Rightarrow> real \<Rightarrow> real \<Rightarrow> real \<times> real \<times> real" where
  "rgbToHsl cr cg cb =
     (let mx = max cr (max cg cb);
          mn = min cr (min cg cb);
          l = fdiv (fadd mx mn) 2
      in if mx \<noteq> mn then
           (let d = fsub mx mn;
                s = (if l > 0.5 then fdiv d (fsub (fsub 2 mx) mn) else fdiv d (fadd mx mn));
                h = (if mx = cr then fdiv (fadd (fdiv (fsub cg cb) d) (if cg < cb then 6 else 0)) 6
                     else if mx = cg then fdiv (fadd (fdiv (fsub cb cr) d) 2) 6
                     else if mx = cb then fdiv (fadd (fdiv (fsub cr cg) d) 4) 6
                     else 0)
            in (fmul h 360, s, l))
         else (fmul 0 360, 0, l))"

datatype ColorRole = red | orange | yellow | green | cyan | blue | purple | pink | gray

text \<open>A role is a string of the source; this is the string.\<close>

fun role_string :: "ColorRole \<Rightarrow> string" where
  "role_string red = ''red''"
| "role_string orange = ''orange''"
| "role_string yellow = ''yellow''"
| "role_string green = ''green''"
| "role_string cyan = ''cyan''"
| "role_string blue = ''blue''"
| "role_string purple = ''purple''"
| "role_string pink = ''pink''"
| "role_string gray = ''gray''"

text \<open>
  The saturation is compared with the number the literal \<^verbatim>\<open>0.12\<close> denotes, \<open>fl (12 / 100)\<close>;
  the hue bounds are whole numbers.
\<close>

definition detectColorRole :: "real \<Rightarrow> real \<Rightarrow> real \<Rightarrow> ColorRole" where
  "detectColorRole cr cg cb =
     (case rgbToHsl cr cg cb of (h, s, l) \<Rightarrow>
        if s < fl (12 / 100) then gray
        else if h \<ge> 0 \<and> h < 20 then red
        else if h \<ge> 20 \<and> h < 45 then orange
        else if h \<ge> 45 \<and> h < 70 then yellow
        else if h \<ge> 70 \<and> h < 165 then green
        else if h \<ge> 165 \<and> h < 200 then cyan
        else if h \<ge> 200 \<and> h < 260 then blue
        else if h \<ge> 260 \<and> h < 300 then purple
        else if h \<ge> 300 \<and> h < 340 then pink
        else red)"

definition shades :: "int list" where
  "shades = [50, 100, 200, 300, 400, 500, 600, 700, 800, 900, 950]"

definition lightnessToShade :: "real \<Rightarrow> int" where
  "lightnessToShade l =
     (let index = Math_round (fmul (fsub 1 l) (real (length shades - 1)))
      in shades ! nat (max 0 (min (int (length shades) - 1) index)))"

definition lightnessToAntLevel :: "real \<Rightarrow> int" where
  "lightnessToAntLevel l = max 1 (min 10 (Math_round (fmul (fsub 1 l) 9) + 1))"

subsection \<open>Naming\<close>

fun semanticMap :: "ColorRole \<Rightarrow> string" where
  "semanticMap red = ''error''"
| "semanticMap orange = ''warning''"
| "semanticMap yellow = ''warning''"
| "semanticMap green = ''success''"
| "semanticMap cyan = ''secondary''"
| "semanticMap blue = ''primary''"
| "semanticMap purple = ''tertiary''"
| "semanticMap pink = ''secondary''"
| "semanticMap gray = ''surface''"

fun semanticMapAnt :: "ColorRole \<Rightarrow> string" where
  "semanticMapAnt red = ''error''"
| "semanticMapAnt orange = ''warning''"
| "semanticMapAnt yellow = ''warning''"
| "semanticMapAnt green = ''success''"
| "semanticMapAnt cyan = ''info''"
| "semanticMapAnt blue = ''primary''"
| "semanticMapAnt purple = ''primary''"
| "semanticMapAnt pink = ''error''"
| "semanticMapAnt gray = ''neutral''"

fun semanticMapWcag :: "real \<Rightarrow> ColorRole \<Rightarrow> string" where
  "semanticMapWcag l red = ''error''"
| "semanticMapWcag l orange = ''warning''"
| "semanticMapWcag l yellow = ''warning''"
| "semanticMapWcag l green = ''success''"
| "semanticMapWcag l cyan = ''info''"
| "semanticMapWcag l blue = ''info''"
| "semanticMapWcag l purple = ''info''"
| "semanticMapWcag l pink = ''error''"
| "semanticMapWcag l gray = (if l > 0.5 then ''neutral-light'' else ''neutral-dark'')"

text \<open>
  The body of the callback of \<open>assignTokenNames\<close> up to the end of its \<^verbatim>\<open>switch\<close>: the
  candidate name of one colour, before the registry is consulted. No \<^verbatim>\<open>case\<close> matching,
  the name stays the empty string it was initialised with. The fallbacks
  \<^verbatim>\<open>?? "color"\<close> and \<^verbatim>\<open>?? "custom"\<close> of the source are never taken, every role having
  an entry in each table, and are left out.
\<close>

definition candidateName :: "string \<Rightarrow> string \<Rightarrow> ExtractedColor \<Rightarrow> string" where
  "candidateName pattern customPrefix c =
     (case rgbToHsl (r c) (g c) (b c) of (h, s, l) \<Rightarrow>
        let role = detectColorRole (r c) (g c) (b c);
            shade = lightnessToShade l;
            antLevel = lightnessToAntLevel l
        in if pattern = ''material'' then
             (let semantic = semanticMap role
              in if shade = 500 then ''color-'' @ semantic
                 else ''color-'' @ semantic @ ''-'' @ number_toString 10 shade)
           else if pattern = ''tailwind'' then
             role_string role @ ''-'' @ number_toString 10 shade
           else if pattern = ''antd'' then
             (let semantic = semanticMapAnt role
              in semantic @ ''-'' @ number_toString 10 antLevel)
           else if pattern = ''wcag'' then
             ''color-'' @ semanticMapWcag l role
           else if pattern = ''custom'' then
             (let prefix = (if trim customPrefix = [] then ''color'' else trim customPrefix)
              in prefix @ ''-'' @ role_string role @ ''-'' @ number_toString 10 shade)
           else [])"

text \<open>
  The \<^verbatim>\<open>map\<close> of \<open>assignTokenNames\<close>, with the registry \<^verbatim>\<open>roleCount\<close> it reads and
  updates threaded through. A candidate name is empty or contains a hyphen, so it never
  is a property name that the registry object inherits (\<open>candidateName_not_inherited\<close>
  below), and the registry is a map of its own entries.
\<close>

fun nameColors ::
  "string \<Rightarrow> string \<Rightarrow> (string \<rightharpoonup> nat) \<Rightarrow> ExtractedColor list \<Rightarrow> ExtractedColor list" where
  "nameColors pattern customPrefix roleCount [] = []"
| "nameColors pattern customPrefix roleCount (c # cs) =
     (let name = candidateName pattern customPrefix c
      in case roleCount name of
           Some n \<Rightarrow>
             c\<lparr>tokenName := name @ ''-'' @ number_toString 10 (int (n + 1))\<rparr>
               # nameColors pattern customPrefix (roleCount(name \<mapsto> n + 1)) cs
         | None \<Rightarrow>
             c\<lparr>tokenName := name\<rparr>
               # nameColors pattern customPrefix (roleCount(name \<mapsto> 0)) cs)"

definition assignTokenNames ::
  "ExtractedColor list \<Rightarrow> string \<Rightarrow> string \<Rightarrow> ExtractedColor list" where
  "assignTokenNames colors pattern customPrefix =
     nameColors pattern customPrefix Map.empty colors"

subsection \<open>Export\<close>

text \<open>
  The value handed to \<^verbatim>\<open>JSON.stringify\<close>: a string, or an object given by its own
  properties. \<open>buildJson\<close> below returns this value; its rendering as indented text is the
  host's and is not modelled.
\<close>

datatype json = JString string | JObject "string \<Rightarrow> json option"

text \<open>
  The property names every plain object inherits from the host's \<^verbatim>\<open>Object.prototype\<close>.
  For these names a read \<^verbatim>\<open>obj[name]\<close> of a fresh object \<^verbatim>\<open>{}\<close> is not \<^verbatim>\<open>undefined\<close>.
\<close>

definition objectPrototypeKeys :: "string list" where
  "objectPrototypeKeys =
     [''constructor'', ''__defineGetter__'', ''__defineSetter__'', ''hasOwnProperty'',
      ''__lookupGetter__'', ''__lookupSetter__'', ''isPrototypeOf'', ''propertyIsEnumerable'',
      ''toString'', ''valueOf'', ''__proto__'', ''toLocaleString'']"

text \<open>
  What a read \<^verbatim>\<open>obj[name]\<close> finds in \<^verbatim>\<open>Object.prototype\<close>: one of the host's functions;
  for \<^verbatim>\<open>__proto__\<close>, whose getter returns the prototype of \<^verbatim>\<open>obj\<close>, the object
  \<^verbatim>\<open>Object.prototype\<close> itself; or a string that the program has stored there.
\<close>

datatype host_value = HostFunction | ProtoAccessor | StringValue string

definition objectPrototype :: "string \<rightharpoonup> host_value" where
  "objectPrototype =
     (\<lambda>k. if k = ''__proto__'' then Some ProtoAccessor
          else if k \<in> set objectPrototypeKeys then Some HostFunction
          else None)"

text \<open>
  The assignment \<^verbatim>\<open>obj[key] = v\<close> to a plain object or to \<^verbatim>\<open>Object.prototype\<close>: it creates
  or overwrites the own property \<open>key\<close>, except for the key \<^verbatim>\<open>__proto__\<close>, whose inherited
  setter ignores a string and leaves the object as it was.
\<close>

definition set_property :: "(string \<rightharpoonup> 'v) \<Rightarrow> string \<Rightarrow> 'v \<Rightarrow> (string \<rightharpoonup> 'v)" where
  "set_property obj key v = (if key = ''__proto__'' then obj else obj(key \<mapsto> v))"

text \<open>
  The properties of the host function \<^verbatim>\<open>Object.prototype[name]\<close> that an assignment
  cannot set, so that it throws a \<^verbatim>\<open>TypeError\<close> in strict mode: \<^verbatim>\<open>length\<close> and \<^verbatim>\<open>name\<close>
  are read-only, the setters of \<^verbatim>\<open>caller\<close> and \<^verbatim>\<open>arguments\<close> throw, and so is
  \<^verbatim>\<open>prototype\<close> read-only for the function \<^verbatim>\<open>Object\<close>, which is what \<^verbatim>\<open>constructor\<close> holds.
\<close>

definition readonlyOf :: "string \<Rightarrow> string list" where
  "readonlyOf name =
     [''length'', ''name'', ''caller'', ''arguments''] @
     (if name = ''constructor'' then [''prototype''] else [])"

text \<open>
  The loop of the \<^verbatim>\<open>tailwind\<close> branch of \<open>buildJson\<close>, with the object \<^verbatim>\<open>nested\<close> and the
  properties of \<^verbatim>\<open>Object.prototype\<close> threaded through; \<open>None\<close> is a \<^verbatim>\<open>TypeError\<close> thrown.
  When \<^verbatim>\<open>nested\<close> has no own property \<open>colorName\<close>, the read \<^verbatim>\<open>nested[colorName]\<close> finds
  what \<^verbatim>\<open>Object.prototype\<close> holds under that name:

  \<^item> nothing: the group is created and filed in \<^verbatim>\<open>nested\<close>;
  \<^item> a host function: the test \<^verbatim>\<open>!nested[colorName]\<close> is false and the assignment sets a
    property of that function, or throws; \<^verbatim>\<open>nested\<close> stays as it is;
  \<^item> \<^verbatim>\<open>Object.prototype\<close> itself (the name \<^verbatim>\<open>__proto__\<close>): the assignment stores the hex
    string in \<^verbatim>\<open>Object.prototype\<close>, where later reads find it;
  \<^item> a string stored there before: the empty string is falsy and the group is created and
    filed in \<^verbatim>\<open>nested\<close>; for any other string the assignment to a property of a string
    throws, unless the property is \<^verbatim>\<open>__proto__\<close>, whose setter ignores it.

  What the loop stores in host objects stays there when the call is over; that lies
  outside the value \<open>buildJson\<close> returns.
\<close>

fun nestedLoop ::
  "(string \<rightharpoonup> host_value) \<Rightarrow> (string \<rightharpoonup> (string \<rightharpoonup> string)) \<Rightarrow> ExtractedColor list \<Rightarrow>
     (string \<rightharpoonup> (string \<rightharpoonup> string)) option" where
  "nestedLoop proto nested [] = Some nested"
| "nestedLoop proto nested (c # cs) =
     (let parts = split_on CHR ''-'' (tokenName c);
          colorName = join_with CHR ''-'' (take (length parts - 1) parts);
          shade = parts ! (length parts - 1)
      in case nested colorName of
           Some inner \<Rightarrow>
             nestedLoop proto (nested(colorName \<mapsto> set_property inner shade (hex c))) cs
         | None \<Rightarrow>
             (case proto colorName of
                None \<Rightarrow>
                  nestedLoop proto (nested(colorName \<mapsto> set_property Map.empty shade (hex c))) cs
              | Some HostFunction \<Rightarrow>
                  if shade \<in> set (readonlyOf colorName) then None
                  else nestedLoop proto nested cs
              | Some ProtoAccessor \<Rightarrow>
                  nestedLoop (set_property proto shade (StringValue (hex c))) nested cs
              | Some (StringValue v) \<Rightarrow>
                  if v = [] then
                    nestedLoop proto
                      (nested(colorName \<mapsto> set_property Map.empty shade (hex c))) cs
                  else if shade = ''__proto__'' then nestedLoop proto nested cs
                  else None))"

text \<open>
  The loop of the other branch, with the object \<^verbatim>\<open>flat\<close> threaded through. An assignment
  to a plain object under an inherited name other than \<^verbatim>\<open>__proto__\<close> creates the own
  property like any other.
\<close>

fun flatLoop :: "(string \<rightharpoonup> string) \<Rightarrow> ExtractedColor list \<Rightarrow> (string \<rightharpoonup> string)" where
  "flatLoop flat [] = flat"
| "flatLoop flat (c # cs) = flatLoop (set_property flat (tokenName c) (hex c)) cs"

definition json_of_flat :: "(string \<rightharpoonup> string) \<Rightarrow> json" where
  "json_of_flat flat = JObject (\<lambda>k. map_option JString (flat k))"

definition json_of_nested :: "(string \<rightharpoonup> (string \<rightharpoonup> string)) \<Rightarrow> json" where
  "json_of_nested nested = JObject (\<lambda>k. map_option json_of_flat (nested k))"

text \<open>\<open>buildJson\<close>: \<open>Some\<close> document, or \<open>None\<close> when the loop throws.\<close>

definition buildJson :: "ExtractedColor list \<Rightarrow> string \<Rightarrow> json option" where
  "buildJson colors pattern =
     (if pattern = ''tailwind'' then
        (case nestedLoop objectPrototype Map.empty colors of
           None \<Rightarrow> None
         | Some nested \<Rightarrow> Some (JObject [''colors'' \<mapsto> json_of_nested nested]))
      else Some (JObject [''colors'' \<mapsto> json_of_flat (flatLoop Map.empty colors)]))"

subsection \<open>The export document as the specification describes it\<close>

text \<open>
  A token name split at its last hyphen: the group key is what stands before that hyphen,
  the shade key what stands after it. A name without a hyphen has the empty group key and
  is its own shade key.
\<close>

definition spec_group :: "string \<Rightarrow> string" where
  "spec_group name = rev (tl (dropWhile (\<lambda>c. c \<noteq> CHR ''-'') (rev name)))"

definition spec_shade :: "string \<Rightarrow> string" where
  "spec_shade name = rev (takeWhile (\<lambda>c. c \<noteq> CHR ''-'') (rev name))"

text \<open>The hex string of the last colour of the sequence that satisfies \<open>P\<close>.\<close>

definition last_hex :: "(ExtractedColor \<Rightarrow> bool) \<Rightarrow> ExtractedColor list \<Rightarrow> string option" where
  "last_hex P colors = map_option hex (find P (rev colors))"

text \<open>
  The two-level mapping from group key to shade key to hex string, and the one-level mapping
  from token name to hex string. Where two colours have the same keys, the later one counts.
\<close>

definition spec_nested :: "ExtractedColor list \<Rightarrow> (string \<rightharpoonup> (string \<rightharpoonup> string))" where
  "spec_nested colors =
     (\<lambda>gk. if gk \<in> (\<lambda>c. spec_group (tokenName c)) ` set colors
           then Some (\<lambda>sk. last_hex (\<lambda>c. spec_group (tokenName c) = gk \<and>
                                         spec_shade (tokenName c) = sk) colors)
           else None)"

definition spec_flat :: "ExtractedColor list \<Rightarrow> (string \<rightharpoonup> string)" where
  "spec_flat colors = (\<lambda>name. last_hex (\<lambda>c. tokenName c = name) colors)"

subsection \<open>The hue buckets as the specification lists them\<close>

text \<open>
  The specification's table of half-open hue ranges in degrees, each with its role:
  \<open>(lo, hi, role)\<close> stands for "\<open>lo \<le> h < hi\<close> gives \<open>role\<close>". It is compared with
  \<open>detectColorRole\<close> below.
\<close>

definition spec_hue_buckets :: "(real \<times> real \<times> ColorRole) list" where
  "spec_hue_buckets =
     [(0, 20, red), (20, 45, orange), (45, 70, yellow), (70, 165, green), (165, 200, cyan),
      (200, 260, blue), (260, 300, purple), (300, 340, pink), (340, 360, red)]"

definition in_bucket :: "real \<Rightarrow> real \<times> real \<times> ColorRole \<Rightarrow> bool" where
  "in_bucket h k = (fst k \<le> h \<and> h < fst (snd k))"

subsection \<open>Auxiliary notions for the statements and proofs\<close>

text \<open>
  Every sample of source \<open>Text\<close> in the list has a hex value that is in \<open>seen\<close> or is the
  hex value of a sample before it.
\<close>

fun text_preceded :: "string set \<Rightarrow> ExtractedColor list \<Rightarrow> bool" where
  "text_preceded seen [] = True"
| "text_preceded seen (c # cs) =
     ((source c = Text \<longrightarrow> hex c \<in> seen) \<and> text_preceded (insert (hex c) seen) cs)"

text \<open>
  A token name that \<open>buildJson\<close> can file: it is not \<^verbatim>\<open>__proto__\<close>, its group key is not a
  name that plain objects inherit, and its shade key is not \<^verbatim>\<open>__proto__\<close>.
\<close>

definition safe_name :: "string \<Rightarrow> bool" where
  "safe_name name \<longleftrightarrow>
     name \<noteq> ''__proto__'' \<and> spec_group name \<notin> set objectPrototypeKeys \<and>
     spec_shade name \<noteq> ''__proto__''"

text \<open>
  How many colours before position \<open>i\<close> have the candidate name of the colour at \<open>i\<close>.
\<close>

definition earlier_same :: "string \<Rightarrow> string \<Rightarrow> ExtractedColor list \<Rightarrow> nat \<Rightarrow> nat" where
  "earlier_same pattern customPrefix cs i =
     length (filter (\<lambda>c. candidateName pattern customPrefix c =
                          candidateName pattern customPrefix (cs ! i)) (take i cs))"

subsection \<open>Sample inputs\<close>

text \<open>
  Colour samples as \<open>extractPaint\<close> builds them, used where a theorem is run on an input.
  A component written \<open>fdiv k 255\<close> is the number the host computes for \<^verbatim>\<open>k / 255\<close>.
\<close>

definition sample :: "real \<Rightarrow> real \<Rightarrow> real \<Rightarrow> Source \<Rightarrow> ExtractedColor" where
  "sample cr cg cb src =
     \<lparr>hex = rgbToHex cr cg cb, r = cr, g = cg, b = cb, a = 1, source = src, tokenName = ''''\<rparr>"

text \<open>Three blues of lightness one half: \<^verbatim>\<open>#0000FF\<close>, \<^verbatim>\<open>#0033FF\<close>, \<^verbatim>\<open>#3300FF\<close>.\<close>

definition three_blues :: "ExtractedColor list" where
  "three_blues =
     [sample 0 0 1 Fill, sample 0 (fdiv 51 255) 1 Fill, sample (fdiv 51 255) 0 1 Fill]"

text \<open>
  Fifty-one blues of lightness one half, \<^verbatim>\<open>#0000FF\<close> to \<^verbatim>\<open>#0032FF\<close>, followed by the
  pale blue \<^verbatim>\<open>#F3F3FF\<close>.
\<close>

definition material_collision_batch :: "ExtractedColor list" where
  "material_collision_batch =
     map (\<lambda>k. sample 0 (fdiv (real k) 255) 1 Fill) [0..<51] @
     [sample (fdiv 243 255) (fdiv 243 255) 1 Fill]"

text \<open>A text node whose only fill is a solid red paint with no visibility or opacity given.\<close>

definition red_paint :: Paint where
  "red_paint = Paint ''SOLID'' None None (1, 0, 0)"

definition red_text_node :: SceneNode where
  "red_text_node = SceneNode ''TEXT'' (Some [red_paint]) None None"

text \<open>
  A colour already named: the specification's example for the flat export,
  \<^verbatim>\<open>color-primary\<close> with hex \<^verbatim>\<open>#1A73E8\<close>.
\<close>

definition primary_blue :: ExtractedColor where
  "primary_blue =
     \<lparr>hex = ''#1A73E8'', r = fdiv 26 255, g = fdiv 115 255, b = fdiv 232 255, a = 1,
      source = Fill, tokenName = ''color-primary''\<rparr>"

section \<open>Properties\<close>

subsection \<open>The rounding of the host's arithmetic\<close>

lemma rte_of_int [simp]: "rte (of_int n) = n"
  by (simp add: rte_def)

lemma rte_eval:
  "rte x = (if x - of_int \<lfloor>x\<rfloor> < 1 / 2 then \<lfloor>x\<rfloor>
            else if 1 / 2 < x - of_int \<lfloor>x\<rfloor> then \<lfloor>x\<rfloor> + 1
            else if even \<lfloor>x\<rfloor> then \<lfloor>x\<rfloor> else \<lfloor>x\<rfloor> + 1)"
  by (simp add: rte_def Let_def)

lemma rte_cases:
  "rte x = \<lfloor>x\<rfloor> \<or> rte x = \<lfloor>x\<rfloor> + 1"
  by (simp add: rte_def Let_def)

lemma rte_mono:
  assumes "x \<le> y"
  shows "rte x \<le> rte y"
proof (cases "\<lfloor>x\<rfloor> = \<lfloor>y\<rfloor>")
  case True
  with assms show ?thesis
    by (auto simp: rte_def Let_def)
next
  case False
  with assms have "\<lfloor>x\<rfloor> < \<lfloor>y\<rfloor>"
    by (simp add: floor_mono order.strict_iff_order)
  moreover have "rte x \<le> \<lfloor>x\<rfloor> + 1" "\<lfloor>y\<rfloor> \<le> rte y"
    using rte_cases [of x] rte_cases [of y] by auto
  ultimately show ?thesis by linarith
qed

lemma rte_minus: "rte (- x) = - rte x"
proof (cases "x = of_int \<lfloor>x\<rfloor>")
  case True
  then have "rte (- x) = rte (of_int (- \<lfloor>x\<rfloor>))" by simp
  also have "\<dots> = - \<lfloor>x\<rfloor>" by (rule rte_of_int)
  also have "\<dots> = - rte (of_int \<lfloor>x\<rfloor>)" by simp
  finally show ?thesis using True by simp
next
  case False
  define f where "f = \<lfloor>x\<rfloor>"
  define d where "d = x - of_int f"
  have lt: "of_int f < x"
    using False of_int_floor_le [of x] unfolding f_def by linarith
  have up: "x < of_int f + 1"
    unfolding f_def by linarith
  have nf: "\<lfloor>- x\<rfloor> = - f - 1"
  proof (rule floor_unique)
    have "- real_of_int f - 1 \<le> - x" using up by linarith
    then show "of_int (- f - 1) \<le> - x" by simp
    have "- x < - real_of_int f" using lt by linarith
    then show "- x < of_int (- f - 1) + 1" by simp
  qed
  have nd: "- x - of_int (- f - 1) = 1 - d"
    by (simp add: d_def)
  have par: "even (- f - 1) \<longleftrightarrow> odd f"
    by simp
  have pos: "rte x = (if d < 1 / 2 then f else if 1 / 2 < d then f + 1
                       else if even f then f else f + 1)"
    by (simp add: rte_def Let_def f_def d_def)
  have neg: "rte (- x) = (if 1 - d < 1 / 2 then - f - 1 else if 1 / 2 < 1 - d then - f
                       else if odd f then - f - 1 else - f)"
    unfolding rte_def Let_def nf nd par by simp
  consider "d < 1 / 2" | "1 / 2 < d" | "d = 1 / 2" by linarith
  then show ?thesis
  proof cases
    case 1
    then show ?thesis unfolding pos neg by simp
  next
    case 2
    then show ?thesis unfolding pos neg by simp
  next
    case 3
    then show ?thesis unfolding pos neg by simp
  qed
qed

lemma halvings_lo: "1 \<le> x \<Longrightarrow> 2 ^ halvings n x \<le> x"
proof (induction n arbitrary: x)
  case 0
  then show ?case by simp
next
  case (Suc n)
  show ?case
  proof (cases "2 \<le> x")
    case True
    then have "1 \<le> x / 2" by simp
    from Suc.IH [OF this] True show ?thesis by simp
  next
    case False
    with Suc.prems show ?thesis by simp
  qed
qed

lemma halvings_hi: "halvings n x < n \<Longrightarrow> x < 2 ^ (halvings n x + 1)"
proof (induction n arbitrary: x)
  case 0
  then show ?case by simp
next
  case (Suc n)
  show ?case
  proof (cases "2 \<le> x")
    case True
    with Suc.prems have "halvings n (x / 2) < n" by simp
    from Suc.IH [OF this] True show ?thesis by simp
  next
    case False
    then show ?thesis by simp
  qed
qed

lemma halvings_le: "halvings n x \<le> n"
  by (induction n arbitrary: x) auto

lemma doublings_le: "doublings n x \<le> n"
  by (induction n arbitrary: x) auto

lemma doublings_hi: "x < 1 \<Longrightarrow> x * 2 ^ doublings n x < 2"
proof (induction n arbitrary: x)
  case 0
  then show ?case by simp
next
  case (Suc n)
  show ?case
  proof (cases "2 * x < 1")
    case True
    from Suc.IH [OF this] Suc.prems show ?thesis by (simp add: mult.assoc)
  next
    case False
    then have "doublings n (2 * x) = 0" by (cases n) simp_all
    with Suc.prems show ?thesis by simp
  qed
qed

lemma doublings_lo: "doublings n x < n \<Longrightarrow> 1 \<le> x * 2 ^ doublings n x"
proof (induction n arbitrary: x)
  case 0
  then show ?case by simp
next
  case (Suc n)
  show ?case
  proof (cases "x < 1")
    case True
    with Suc.prems have "doublings n (2 * x) < n" by simp
    from Suc.IH [OF this] True show ?thesis by (simp add: mult.assoc)
  next
    case False
    then show ?thesis by simp
  qed
qed

lemma expo_range: "- 1022 \<le> expo x \<and> expo x \<le> 1023"
  using halvings_le [of 1023 "\<bar>x\<bar>"] doublings_le [of 1022 "\<bar>x\<bar>"]
  by (simp add: expo_def)

lemma expo_lo:
  assumes "- 1022 < expo x"
  shows "2 powi expo x \<le> \<bar>x\<bar>"
proof (cases "1 \<le> \<bar>x\<bar>")
  case True
  then show ?thesis
    using halvings_lo [OF True, of 1023] by (simp add: expo_def)
next
  case False
  define k where "k = doublings 1022 \<bar>x\<bar>"
  from False have e: "expo x = - int k" by (simp add: expo_def k_def)
  with assms have "k < 1022" by simp
  then have "1 \<le> \<bar>x\<bar> * 2 ^ k"
    unfolding k_def by (rule doublings_lo)
  then have "1 / 2 ^ k \<le> \<bar>x\<bar>"
    by (simp add: field_simps)
  then show ?thesis
    by (simp add: e power_int_minus_divide)
qed

lemma expo_hi:
  assumes "expo x < 1023"
  shows "\<bar>x\<bar> < 2 powi (expo x + 1)"
proof (cases "1 \<le> \<bar>x\<bar>")
  case True
  define h where "h = halvings 1023 \<bar>x\<bar>"
  from True have e: "expo x = int h" by (simp add: expo_def h_def)
  with assms have "h < 1023" by simp
  then have "\<bar>x\<bar> < 2 ^ (h + 1)"
    unfolding h_def by (rule halvings_hi)
  moreover have "(2::real) powi (int h + 1) = 2 ^ (h + 1)"
    by (simp add: power_int_add)
  ultimately show ?thesis
    by (simp only: e)
next
  case False
  define k where "k = doublings 1022 \<bar>x\<bar>"
  from False have e: "expo x = - int k" by (simp add: expo_def k_def)
  from False have "\<bar>x\<bar> < 1" by simp
  then have "\<bar>x\<bar> * 2 ^ k < 2"
    unfolding k_def by (rule doublings_hi)
  then have "\<bar>x\<bar> < 2 / 2 ^ k"
    by (simp add: field_simps)
  moreover have "(2::real) powi (- int k + 1) = 2 / 2 ^ k"
  proof -
    have "(2::real) powi (- int k + 1) = 2 powi (- int k) * 2 powi 1"
      by (rule power_int_add) simp
    then show ?thesis by (simp add: power_int_minus_divide)
  qed
  ultimately show ?thesis
    by (simp only: e)
qed

lemma expo_minus [simp]: "expo (- x) = expo x"
  by (simp add: expo_def)

lemma pow2_mono: "(i::int) \<le> j \<Longrightarrow> (2::real) powi i \<le> 2 powi j"
  by (rule power_int_increasing) simp_all

lemma expo_unique:
  assumes "2 powi e \<le> \<bar>x\<bar>" "\<bar>x\<bar> < 2 powi (e + 1)" "- 1022 \<le> e" "e \<le> 1023"
  shows "expo x = e"
proof (rule ccontr)
  assume ne: "expo x \<noteq> e"
  show False
  proof (cases "expo x < e")
    case True
    with assms(4) have "expo x < 1023" by simp
    from expo_hi [OF this] have "\<bar>x\<bar> < 2 powi (expo x + 1)" .
    also have "\<dots> \<le> 2 powi e" using True by (intro pow2_mono) simp
    finally show False using assms(1) by simp
  next
    case False
    with ne have gt: "e < expo x" by simp
    with assms(3) have "- 1022 < expo x" by simp
    from expo_lo [OF this] have "2 powi expo x \<le> \<bar>x\<bar>" .
    moreover have "2 powi (e + 1) \<le> (2::real) powi expo x"
      using gt by (intro pow2_mono) simp
    ultimately show False using assms(2) by simp
  qed
qed

lemma expo_subnormal:
  assumes "\<bar>x\<bar> < 2 powi (- 1022)"
  shows "expo x = - 1022"
proof (rule ccontr)
  assume "expo x \<noteq> - 1022"
  with expo_range [of x] have gt: "- 1022 < expo x" by simp
  from expo_lo [OF this] have "2 powi expo x \<le> \<bar>x\<bar>" .
  moreover have "2 powi (- 1022) \<le> (2::real) powi expo x"
    using gt by (intro pow2_mono) simp
  ultimately show False using assms by simp
qed

lemma expo_mono:
  assumes "\<bar>x\<bar> \<le> \<bar>y\<bar>"
  shows "expo x \<le> expo y"
proof (rule ccontr)
  assume "\<not> expo x \<le> expo y"
  then have gt: "expo y < expo x" by simp
  with expo_range [of x] have "expo y < 1023" by simp
  from expo_hi [OF this] have "\<bar>y\<bar> < 2 powi (expo y + 1)" .
  also have "\<dots> \<le> 2 powi expo x" using gt by (intro pow2_mono) simp
  also have "\<dots> \<le> \<bar>x\<bar>"
    using gt expo_range [of y] by (intro expo_lo) simp
  finally show False using assms by simp
qed

lemma ulp_pos [simp]: "0 < ulp x"
  by (simp add: ulp_def)

lemma ulp_nonneg [simp]: "0 \<le> ulp x"
  by (simp add: ulp_def)

lemma ulp_nonzero [simp]: "ulp x \<noteq> 0"
  by (simp add: ulp_def)

lemma ulp_minus [simp]: "ulp (- x) = ulp x"
  by (simp add: ulp_def)

lemma fl_zero [simp]: "fl 0 = 0"
  using rte_of_int [of 0] by (simp add: fl_def)

lemma fl_minus: "fl (- x) = - fl x"
  using rte_minus [of "x / ulp x"] by (simp add: fl_def)

lemma fl_nonneg:
  assumes "0 \<le> x"
  shows "0 \<le> fl x"
proof -
  from assms have "0 \<le> x / ulp x" by simp
  then have "rte 0 \<le> rte (x / ulp x)" by (rule rte_mono)
  moreover have "rte 0 = 0" using rte_of_int [of 0] by simp
  ultimately show ?thesis by (simp add: fl_def)
qed

lemma pow2_split: "(2::real) powi (i + j) = 2 powi i * 2 powi j"
  by (rule power_int_add) simp

lemma ulp_scale: "ulp x * 2 ^ 52 = 2 powi expo x"
proof -
  have "(2::real) powi ((expo x - 52) + 52) = 2 powi (expo x - 52) * 2 powi 52"
    by (rule pow2_split)
  then show ?thesis by (simp add: ulp_def)
qed

lemma fl_below_binade:
  assumes "0 \<le> x" "x < 2 powi (expo x + 1)"
  shows "fl x \<le> 2 powi (expo x + 1)"
proof -
  have top: "(2::real) powi (expo x + 1) = ulp x * 2 ^ 53"
    using ulp_scale [of x] pow2_split [of "expo x" 1] by simp
  with assms(2) have "x / ulp x \<le> 2 ^ 53"
    by (simp add: field_simps)
  then have "x / ulp x \<le> of_int (2 ^ 53)" by simp
  then have "rte (x / ulp x) \<le> rte (of_int (2 ^ 53))" by (rule rte_mono)
  then have "rte (x / ulp x) \<le> 2 ^ 53" by (simp only: rte_of_int)
  then have "real_of_int (rte (x / ulp x)) \<le> 2 ^ 53"
    by (metis of_int_le_iff of_int_numeral of_int_power)
  then have "real_of_int (rte (x / ulp x)) * ulp x \<le> 2 ^ 53 * ulp x"
    by (intro mult_right_mono) simp_all
  then show ?thesis by (simp add: fl_def top mult.commute)
qed

lemma fl_above_binade:
  assumes "2 powi expo x \<le> x"
  shows "2 powi expo x \<le> fl x"
proof -
  from assms ulp_scale [of x] have "2 ^ 52 \<le> x / ulp x"
    by (simp add: field_simps)
  then have "of_int (2 ^ 52) \<le> x / ulp x" by simp
  then have "rte (of_int (2 ^ 52)) \<le> rte (x / ulp x)" by (rule rte_mono)
  then have "2 ^ 52 \<le> rte (x / ulp x)" by (simp only: rte_of_int)
  then have "2 ^ 52 \<le> real_of_int (rte (x / ulp x))"
    by (metis of_int_le_iff of_int_numeral of_int_power)
  then have step: "2 ^ 52 * ulp x \<le> real_of_int (rte (x / ulp x)) * ulp x"
    by (intro mult_right_mono) simp_all
  have "2 powi expo x = 2 ^ 52 * ulp x"
    using ulp_scale [of x] by (simp only: mult.commute)
  also note step
  also have "real_of_int (rte (x / ulp x)) * ulp x = fl x"
    by (simp only: fl_def)
  finally show ?thesis .
qed

lemma fl_mono_nonneg:
  assumes "0 \<le> x" "x \<le> y"
  shows "fl x \<le> fl y"
proof (cases "expo x = expo y")
  case True
  then have u: "ulp x = ulp y" by (simp add: ulp_def)
  from assms(2) have "x / ulp y \<le> y / ulp y"
    by (simp add: divide_right_mono)
  then have "rte (x / ulp y) \<le> rte (y / ulp y)" by (rule rte_mono)
  then have "real_of_int (rte (x / ulp y)) * ulp y \<le> real_of_int (rte (y / ulp y)) * ulp y"
    by (intro mult_right_mono) simp_all
  then show ?thesis by (simp add: fl_def u)
next
  case False
  from assms have "\<bar>x\<bar> \<le> \<bar>y\<bar>" by simp
  from expo_mono [OF this] False have lt: "expo x < expo y" by simp
  from lt expo_range [of y] have "expo x < 1023" by simp
  from expo_hi [OF this] assms(1) have "x < 2 powi (expo x + 1)" by simp
  from fl_below_binade [OF assms(1) this] have "fl x \<le> 2 powi (expo x + 1)" .
  also have "\<dots> \<le> 2 powi expo y" using lt by (intro pow2_mono) simp
  also have "\<dots> \<le> fl y"
  proof (rule fl_above_binade)
    from lt expo_range [of x] have "- 1022 < expo y" by simp
    from expo_lo [OF this] assms show "2 powi expo y \<le> y" by simp
  qed
  finally show ?thesis .
qed

lemma fl_mono:
  assumes "x \<le> y"
  shows "fl x \<le> fl y"
proof -
  consider "0 \<le> x" | "x < 0" "0 \<le> y" | "y < 0" by linarith
  then show ?thesis
  proof cases
    case 1
    then show ?thesis using assms by (rule fl_mono_nonneg)
  next
    case 2
    from 2(1) have "0 \<le> fl (- x)" by (intro fl_nonneg) simp
    then have "fl x \<le> 0" by (simp add: fl_minus)
    also have "0 \<le> fl y" using 2(2) by (rule fl_nonneg)
    finally show ?thesis .
  next
    case 3
    with assms have "0 \<le> - y" "- y \<le> - x" by simp_all
    then have "fl (- y) \<le> fl (- x)" by (rule fl_mono_nonneg)
    then show ?thesis by (simp add: fl_minus)
  qed
qed

lemma fl_exact:
  assumes "\<bar>m\<bar> < 2 ^ 53" "- 1074 \<le> k"
  shows "fl (of_int m * 2 powi k) = of_int m * 2 powi k"
proof -
  define x :: real where "x = of_int m * 2 powi k"
  have le: "expo x - 52 \<le> k"
  proof (cases "- 1022 < expo x")
    case False
    with expo_range [of x] assms(2) show ?thesis by simp
  next
    case True
    from expo_lo [OF this] have "2 powi expo x \<le> \<bar>x\<bar>" .
    also have "\<bar>x\<bar> = real_of_int \<bar>m\<bar> * 2 powi k"
      by (simp add: x_def abs_mult)
    also have "\<dots> < 2 ^ 53 * 2 powi k"
    proof (rule mult_strict_right_mono)
      from assms(1) show "real_of_int \<bar>m\<bar> < 2 ^ 53"
        by (metis of_int_less_iff of_int_numeral of_int_power)
    qed simp
    also have "\<dots> = 2 powi (53 + k)"
      using pow2_split [of 53 k] by simp
    finally have "(2::real) powi expo x < 2 powi (53 + k)" .
    then have "expo x < 53 + k"
      by (metis linorder_not_less pow2_mono)
    then show ?thesis by simp
  qed
  define j where "j = nat (k - (expo x - 52))"
  from le have k: "k = (expo x - 52) + int j" by (simp add: j_def)
  have pk: "(2::real) powi k = ulp x * 2 ^ j"
    unfolding ulp_def by (subst k, subst pow2_split) simp
  have "x = of_int m * (ulp x * 2 ^ j)"
    unfolding pk [symmetric] by (rule x_def)
  then have "x = of_int (m * 2 ^ j) * ulp x"
    by (simp add: mult_ac)
  then have q: "x / ulp x = of_int (m * 2 ^ j)"
    by (simp add: field_simps)
  have "fl x = of_int (m * 2 ^ j) * ulp x"
    unfolding fl_def q rte_of_int ..
  also have "\<dots> = x * 1"
    using q by (simp add: field_simps)
  finally show ?thesis by (simp add: x_def)
qed

lemma fl_eval:
  assumes "2 powi e \<le> \<bar>x\<bar>" "\<bar>x\<bar> < 2 powi (e + 1)" "- 1022 \<le> e" "e \<le> 1023"
  shows "fl x = of_int (rte (x / 2 powi (e - 52))) * 2 powi (e - 52)"
  using expo_unique [OF assms] by (simp add: fl_def ulp_def)

lemma fl_grid: "\<exists>n. fl x = of_int n * 2 powi (- 1074)"
proof -
  define j where "j = nat (expo x - 52 + 1074)"
  from expo_range [of x] have e: "expo x - 52 = - 1074 + int j" by (simp add: j_def)
  have "ulp x = 2 powi (- 1074) * 2 ^ j"
    unfolding ulp_def by (subst e, subst pow2_split) simp
  then have "fl x = of_int (rte (x / ulp x) * 2 ^ j) * 2 powi (- 1074)"
    by (simp add: fl_def)
  then show ?thesis ..
qed

text \<open>The rounding error is at most half the spacing.\<close>

lemma rte_error: "\<bar>real_of_int (rte y) - y\<bar> \<le> 1 / 2"
proof -
  have "real_of_int \<lfloor>y\<rfloor> \<le> y" "y < real_of_int \<lfloor>y\<rfloor> + 1"
    by linarith+
  then show ?thesis
    by (auto simp: rte_def Let_def)
qed

lemma fl_error: "\<bar>fl x - x\<bar> \<le> ulp x / 2"
proof -
  have "fl x - x = (real_of_int (rte (x / ulp x)) - x / ulp x) * ulp x"
    by (simp add: fl_def algebra_simps)
  then have "\<bar>fl x - x\<bar> = \<bar>real_of_int (rte (x / ulp x)) - x / ulp x\<bar> * ulp x"
    by (simp add: abs_mult)
  also have "\<dots> \<le> 1 / 2 * ulp x"
    by (intro mult_right_mono rte_error) simp
  finally show ?thesis by simp
qed

lemma ulp_below_one:
  assumes "\<bar>x\<bar> < 1"
  shows "ulp x \<le> 2 powi (- 53)"
proof -
  from assms have "expo x = - int (doublings 1022 \<bar>x\<bar>)"
    by (simp add: expo_def)
  moreover from assms have "1 \<le> doublings 1022 \<bar>x\<bar>"
    by (simp add: eval_nat_numeral)
  ultimately have "expo x - 52 \<le> - 53" by simp
  then show ?thesis
    unfolding ulp_def by (rule pow2_mono)
qed

text \<open>Numbers of the format that the proofs below meet.\<close>

lemma fl_of_int:
  assumes "\<bar>m\<bar> < 2 ^ 53"
  shows "fl (of_int m) = of_int m"
  using fl_exact [OF assms, of 0] by simp

lemma fl_numeral [simp]:
  "fl 1 = 1" "fl 2 = 2" "fl 3 = 3" "fl 4 = 4" "fl 5 = 5" "fl 6 = 6" "fl 10 = 10"
  "fl 255 = 255" "fl 360 = 360"
  using fl_of_int [of 1] fl_of_int [of 2] fl_of_int [of 3] fl_of_int [of 4] fl_of_int [of 5]
    fl_of_int [of 6] fl_of_int [of 10] fl_of_int [of 255] fl_of_int [of 360]
  by simp_all

lemma fl_half [simp]: "fl (1 / 2) = 1 / 2"
  using fl_exact [of 1 "- 1"] by simp

lemma is_double_unit: "is_double 0" "is_double 1"
  by (simp_all add: is_double_def)

text \<open>A number of the format is a multiple of the least spacing.\<close>

lemma is_double_grid:
  assumes "is_double x"
  obtains n where "x = of_int n * 2 powi (- 1074)"
  using assms fl_grid [of x] by (auto simp: is_double_def)

lemma fl_positive:
  assumes "x = of_int n * 2 powi (- 1074)" "0 < x"
  shows "0 < fl x"
proof -
  from assms have "0 < n"
    by (simp add: zero_less_mult_iff)
  then have "1 \<le> real_of_int n" by simp
  then have "1 * 2 powi (- 1074) \<le> real_of_int n * 2 powi (- 1074)"
    by (intro mult_right_mono) simp_all
  then have "2 powi (- 1074) \<le> x" using assms(1) by simp
  then have "fl (2 powi (- 1074)) \<le> fl x" by (rule fl_mono)
  moreover have "fl (2 powi (- 1074)) = 2 powi (- 1074)"
    using fl_exact [of 1 "- 1074"] by simp
  moreover have "(0::real) < 2 powi (- 1074)" by simp
  ultimately show ?thesis by linarith
qed

subsection \<open>Evaluation of the string helpers\<close>

lemma digits_of_small: "n < radix \<Longrightarrow> digits_of radix n = [digit_char n]"
  by (simp add: digits_of.simps)

lemma digits_of_step:
  "2 \<le> radix \<Longrightarrow> radix \<le> n \<Longrightarrow>
     digits_of radix n = digits_of radix (n div radix) @ [digit_char (n mod radix)]"
  by (subst digits_of.simps) simp

lemma toHex_zero: "toHex 0 = ''00''"
  by (simp add: toHex_def fmul_def Math_round_def number_toString_def digits_of_small
      digit_char_def padStart2_def)

lemma toHex_one: "toHex 1 = ''ff''"
  by (simp add: toHex_def fmul_def Math_round_def number_toString_def digits_of_small
      digits_of_step digit_char_def padStart2_def)

lemma hex_pure_red: "rgbToHex 1 0 0 = ''#FF0000''"
  by (simp add: rgbToHex_def toHex_zero toHex_one toUpperCase_def upper_char_def)

lemma hex_pure_green: "rgbToHex 0 1 0 = ''#00FF00''"
  by (simp add: rgbToHex_def toHex_zero toHex_one toUpperCase_def upper_char_def)

lemma hex_pure_blue: "rgbToHex 0 0 1 = ''#0000FF''"
  by (simp add: rgbToHex_def toHex_zero toHex_one toUpperCase_def upper_char_def)

subsection \<open>The deduplicator\<close>

lemma filter_unseen_append:
  "filter_unseen seen (xs @ ys) =
     filter_unseen seen xs @ filter_unseen (seen \<union> hex ` set xs) ys"
proof (induction xs arbitrary: seen)
  case Nil
  show ?case by simp
next
  case (Cons x xs)
  show ?case
  proof (cases "hex x \<in> seen")
    case True
    then have "seen \<union> hex ` set (x # xs) = seen \<union> hex ` set xs" by auto
    with True Cons show ?thesis by simp
  next
    case False
    have "insert (hex x) seen \<union> hex ` set xs = seen \<union> hex ` set (x # xs)" by auto
    with False Cons [of "insert (hex x) seen"] show ?thesis by simp
  qed
qed

lemma deduplicateColors_snoc:
  "deduplicateColors (xs @ [c]) =
     deduplicateColors xs @ (if hex c \<in> hex ` set xs then [] else [c])"
  by (simp add: deduplicateColors_def filter_unseen_append)

lemma filter_unseen_hex_fresh:
  "c \<in> set (filter_unseen seen cs) \<Longrightarrow> hex c \<notin> seen"
  by (induction cs arbitrary: seen) (auto split: if_splits)

lemma filter_unseen_subset: "set (filter_unseen seen cs) \<subseteq> set cs"
  by (induction cs arbitrary: seen) auto

lemma filter_unseen_distinct: "distinct (map hex (filter_unseen seen cs))"
  by (induction cs arbitrary: seen) (auto dest: filter_unseen_hex_fresh)

lemma filter_unseen_id:
  "distinct (map hex cs) \<Longrightarrow> hex ` set cs \<inter> seen = {} \<Longrightarrow> filter_unseen seen cs = cs"
  by (induction cs arbitrary: seen) auto

lemma first_occurrences_snoc:
  "map ((!) (xs @ [c]))
     (filter (\<lambda>i. \<forall>j<i. hex ((xs @ [c]) ! j) \<noteq> hex ((xs @ [c]) ! i)) [0..<length xs]) =
   map ((!) xs) (filter (\<lambda>i. \<forall>j<i. hex (xs ! j) \<noteq> hex (xs ! i)) [0..<length xs])"
proof -
  have same:
    "filter (\<lambda>i. \<forall>j<i. hex ((xs @ [c]) ! j) \<noteq> hex ((xs @ [c]) ! i)) [0..<length xs] =
     filter (\<lambda>i. \<forall>j<i. hex (xs ! j) \<noteq> hex (xs ! i)) [0..<length xs]"
    by (rule filter_cong) (auto simp: nth_append)
  show ?thesis
    unfolding same by (rule map_cong) (auto simp: nth_append)
qed

lemma hex_seen_before:
  "hex c \<in> hex ` set xs \<longleftrightarrow> (\<exists>j<length xs. hex (xs ! j) = hex c)"
proof
  assume "hex c \<in> hex ` set xs"
  then obtain x where "x \<in> set xs" "hex x = hex c" by auto
  then show "\<exists>j<length xs. hex (xs ! j) = hex c"
    by (metis in_set_conv_nth)
next
  assume "\<exists>j<length xs. hex (xs ! j) = hex c"
  then obtain j where "j < length xs" "hex (xs ! j) = hex c" by blast
  then show "hex c \<in> hex ` set xs"
    by (metis image_eqI nth_mem)
qed

text \<open>
  Claim C5. The deduplicator returns the samples at exactly those positions \<open>i\<close> of its
  input at which no earlier position \<open>j < i\<close> holds a sample with the same hex string, in
  the order of the input: the first occurrence of every hex value is kept, and a sample is
  dropped if and only if an earlier sample has its hex string.
\<close>

theorem deduplicateColors_first_occurrences:
  "deduplicateColors cs =
     map (\<lambda>i. cs ! i) (filter (\<lambda>i. \<forall>j<i. hex (cs ! j) \<noteq> hex (cs ! i)) [0..<length cs])"
proof (induction cs rule: rev_induct)
  case Nil
  show ?case by (simp add: deduplicateColors_def)
next
  case (snoc c xs)
  have last_kept:
    "(\<forall>j<length xs. hex ((xs @ [c]) ! j) \<noteq> hex ((xs @ [c]) ! length xs)) \<longleftrightarrow>
     hex c \<notin> hex ` set xs"
    unfolding hex_seen_before by (auto simp: nth_append)
  show ?case
    using snoc.IH first_occurrences_snoc [of xs c] last_kept
    by (simp add: deduplicateColors_snoc)
qed

theorem deduplicateColors_first_occurrences_witness:
  "map (\<lambda>i. [sample 1 0 0 Fill, sample 0 1 0 Fill, sample 1 0 0 Stroke] ! i)
     (filter (\<lambda>i. \<forall>j<i. hex ([sample 1 0 0 Fill, sample 0 1 0 Fill, sample 1 0 0 Stroke] ! j)
                        \<noteq> hex ([sample 1 0 0 Fill, sample 0 1 0 Fill, sample 1 0 0 Stroke] ! i))
        [0..<length [sample 1 0 0 Fill, sample 0 1 0 Fill, sample 1 0 0 Stroke]]) =
   [sample 1 0 0 Fill, sample 0 1 0 Fill]"
  using deduplicateColors_first_occurrences
    [of "[sample 1 0 0 Fill, sample 0 1 0 Fill, sample 1 0 0 Stroke]"]
  by (simp add: deduplicateColors_def sample_def hex_pure_red hex_pure_green)

text \<open>
  Claim C6. Deduplication is idempotent, and a sequence whose hex values are pairwise
  distinct is returned unchanged.
\<close>

theorem deduplicateColors_idempotent:
  "deduplicateColors (deduplicateColors s) = deduplicateColors s \<and>
   (distinct (map hex s) \<longrightarrow> deduplicateColors s = s)"
  by (simp add: deduplicateColors_def filter_unseen_id filter_unseen_distinct)

theorem deduplicateColors_idempotent_witness:
  "distinct (map hex [sample 1 0 0 Fill, sample 0 1 0 Stroke]) \<and>
   deduplicateColors [sample 1 0 0 Fill, sample 0 1 0 Stroke] =
     [sample 1 0 0 Fill, sample 0 1 0 Stroke] \<and>
   deduplicateColors
     (deduplicateColors [sample 1 0 0 Fill, sample 0 1 0 Fill, sample 1 0 0 Stroke]) =
     [sample 1 0 0 Fill, sample 0 1 0 Fill]"
  using deduplicateColors_idempotent [of "[sample 1 0 0 Fill, sample 0 1 0 Stroke]"]
    deduplicateColors_idempotent
      [of "[sample 1 0 0 Fill, sample 0 1 0 Fill, sample 1 0 0 Stroke]"]
  by (simp add: deduplicateColors_def sample_def hex_pure_red hex_pure_green)

subsection \<open>The shade quantizer\<close>

lemma fl_between:
  assumes "lo \<le> x" "x \<le> hi" "fl lo = lo" "fl hi = hi"
  shows "lo \<le> fl x \<and> fl x \<le> hi"
  using fl_mono [OF assms(1)] fl_mono [OF assms(2)] assms(3,4) by simp

lemma shade_product_range:
  assumes "0 \<le> l" "l \<le> 1"
  shows "0 \<le> fmul (fsub 1 l) 10 \<and> fmul (fsub 1 l) 10 \<le> 10"
proof -
  have "0 \<le> fl (1 - l) \<and> fl (1 - l) \<le> 1"
    using assms by (intro fl_between) simp_all
  then have "0 \<le> fl (fl (1 - l) * 10) \<and> fl (fl (1 - l) * 10) \<le> 10"
    by (intro fl_between) simp_all
  then show ?thesis by (simp add: fmul_def fsub_def)
qed

lemma Math_round_range:
  assumes "0 \<le> x" "x \<le> 10"
  shows "0 \<le> Math_round x \<and> Math_round x \<le> 10"
proof -
  have "0 \<le> x + 1 / 2" using assms by simp
  then have lo: "0 \<le> \<lfloor>x + 1 / 2\<rfloor>" by simp
  have "x + 1 / 2 < 11" using assms by simp
  then have "\<lfloor>x + 1 / 2\<rfloor> < 11" by (simp add: floor_less_iff)
  with lo show ?thesis by (simp add: Math_round_def)
qed

lemma lightnessToShade_mem: "lightnessToShade l \<in> set shades"
proof -
  have "nat (max 0 (min (int (length shades) - 1)
          (Math_round (fmul (fsub 1 l) (real (length shades - 1)))))) < length shades"
    by (simp add: shades_def)
  then show ?thesis
    unfolding lightnessToShade_def Let_def by (rule nth_mem)
qed

text \<open>The number the host has for \<^verbatim>\<open>0.45\<close>, and the shade computed for it.\<close>

lemma double_0_45: "fl (9 / 20) = 8106479329266893 / 2 ^ 54"
  using fl_eval [of "- 2" "9 / 20"] by (simp add: rte_eval)

lemma double_0_45_is_double: "is_double (fl (9 / 20))"
  using fl_exact [of 8106479329266893 "- 54"] by (simp add: is_double_def double_0_45)

lemma one_minus_0_45: "fsub 1 (fl (9 / 20)) = 2476979795053773 / 2 ^ 52"
  using fl_eval [of "- 1" "1 - 8106479329266893 / 2 ^ 54"]
  by (simp add: fsub_def double_0_45 rte_eval)

lemma product_0_45: "fmul (fsub 1 (fl (9 / 20))) 10 = 11 / 2"
  using fl_eval [of 2 "2476979795053773 / 2 ^ 52 * 10"]
  by (simp add: fmul_def one_minus_0_45 rte_eval)

lemma lightnessToShade_0_45: "lightnessToShade (fl (9 / 20)) = 600"
  by (simp add: lightnessToShade_def shades_def product_0_45 Math_round_def)

text \<open>
  Claim C4, as stated, evaluated at the lightness \<^verbatim>\<open>0.45\<close>. The claim's index is
  \<open>round ((1 - l) * 10)\<close>; for the number \<open>l\<close> that the host has for \<^verbatim>\<open>0.45\<close> the value
  of \<open>(1 - l) * 10\<close> lies below \<open>5.5\<close>, so the claim's index is 5 and its shade 500. The
  source computes \<^verbatim>\<open>(1 - l) * 10\<close> in the host's arithmetic, where the difference and the
  product are rounded: the product is \<open>5.5\<close>, \<^verbatim>\<open>Math.round\<close> gives 6, and the shade is 600.
\<close>

theorem lightnessToShade_rounding_tie:
  "is_double (fl (45 / 100)) \<and> 0 \<le> fl (45 / 100) \<and> fl (45 / 100) \<le> 1 \<and>
   (1 - fl (45 / 100)) * 10 < 11 / 2 \<and> fmul (fsub 1 (fl (45 / 100))) 10 = 11 / 2 \<and>
   [50, 100, 200, 300, 400, 500, 600, 700, 800, 900, 950]
     ! nat (max 0 (min 10 (Math_round ((1 - fl (45 / 100)) * 10)))) = (500::int) \<and>
   lightnessToShade (fl (45 / 100)) = 600"
proof -
  have c1: "is_double (fl (45 / 100))"
    using double_0_45_is_double by simp
  have c2: "0 \<le> fl (45 / 100)" and c3: "fl (45 / 100) \<le> 1"
    by (simp_all add: double_0_45)
  have c4: "(1 - fl (45 / 100)) * 10 < 11 / 2"
    by (simp add: double_0_45)
  have c5: "fmul (fsub 1 (fl (45 / 100))) 10 = 11 / 2"
    using product_0_45 by simp
  have c6: "[50, 100, 200, 300, 400, 500, 600, 700, 800, 900, 950]
     ! nat (max 0 (min 10 (Math_round ((1 - fl (45 / 100)) * 10)))) = (500::int)"
    by (simp add: double_0_45 Math_round_def)
  have c7: "lightnessToShade (fl (45 / 100)) = 600"
    using lightnessToShade_0_45 by simp
  from c1 c2 c3 c4 c5 c6 c7 show ?thesis by blast
qed

text \<open>
  Claim C4, amended. For a lightness \<open>l\<close> in the unit interval, \<open>lightnessToShade\<close> returns
  the element of the list 50, 100, 200, ..., 900, 950 at the index \<^verbatim>\<open>Math.round\<close> of the
  product \<open>(1 - l) * 10\<close> as the host computes it, the difference and the product each
  rounded to the nearest number of the host. That index lies in 0..10 already, so the
  clamping changes nothing and the result is a member of the list; lightness 1 gives 50
  and lightness 0 gives 950.
\<close>

theorem lightnessToShade_quantizer:
  "(0 \<le> l \<and> l \<le> 1 \<longrightarrow>
      0 \<le> Math_round (fmul (fsub 1 l) 10) \<and> Math_round (fmul (fsub 1 l) 10) \<le> 10 \<and>
      lightnessToShade l =
        [50, 100, 200, 300, 400, 500, 600, 700, 800, 900, 950]
          ! nat (max 0 (min 10 (Math_round (fmul (fsub 1 l) 10)))) \<and>
      lightnessToShade l \<in> {50, 100, 200, 300, 400, 500, 600, 700, 800, 900, 950}) \<and>
   lightnessToShade 1 = 50 \<and> lightnessToShade 0 = 950"
proof -
  have idx: "lightnessToShade l =
        [50, 100, 200, 300, 400, 500, 600, 700, 800, 900, 950]
          ! nat (max 0 (min 10 (Math_round (fmul (fsub 1 l) 10))))"
    by (simp add: lightnessToShade_def shades_def)
  have mem: "lightnessToShade l \<in> {50, 100, 200, 300, 400, 500, 600, 700, 800, 900, 950}"
    using lightnessToShade_mem [of l] by (simp add: shades_def)
  have one: "lightnessToShade 1 = 50"
    by (simp add: lightnessToShade_def shades_def fsub_def fmul_def Math_round_def)
  have zero: "lightnessToShade 0 = 950"
    by (simp add: lightnessToShade_def shades_def fsub_def fmul_def Math_round_def)
  have rng: "0 \<le> Math_round (fmul (fsub 1 l) 10) \<and> Math_round (fmul (fsub 1 l) 10) \<le> 10"
    if "0 \<le> l" "l \<le> 1"
    using shade_product_range [OF that] by (intro Math_round_range) simp_all
  show ?thesis
    using idx mem one zero rng by blast
qed

theorem lightnessToShade_quantizer_witness:
  "(0::real) \<le> 1 / 2 \<and> (1 / 2 :: real) \<le> 1 \<and> Math_round (fmul (fsub 1 (1 / 2)) 10) = 5 \<and>
   lightnessToShade (1 / 2) = 500"
  using lightnessToShade_quantizer [of "1 / 2"]
  by (simp add: fsub_def fmul_def Math_round_def)

subsection \<open>The role classifier\<close>

text \<open>
  For components that are numbers of the host in the unit interval, the divisors of
  \<open>rgbToHsl\<close> are positive: the source divides by no zero there.
\<close>

lemma rgbToHsl_divisors:
  assumes "is_double cr" "is_double cg" "is_double cb"
    and "0 \<le> cr \<and> cr \<le> 1" "0 \<le> cg \<and> cg \<le> 1" "0 \<le> cb \<and> cb \<le> 1"
    and "max cr (max cg cb) \<noteq> min cr (min cg cb)"
  shows "0 < fsub (max cr (max cg cb)) (min cr (min cg cb)) \<and>
         0 < fadd (max cr (max cg cb)) (min cr (min cg cb)) \<and>
         0 < fsub (fsub 2 (max cr (max cg cb))) (min cr (min cg cb))"
proof -
  define mx where "mx = max cr (max cg cb)"
  define mn where "mn = min cr (min cg cb)"
  have "is_double mx" "is_double mn"
    using assms(1-3) by (auto simp: mx_def mn_def max_def min_def)
  then obtain i j where mx: "mx = of_int i * 2 powi (- 1074)" and mn: "mn = of_int j * 2 powi (- 1074)"
    by (metis is_double_grid)
  have order: "mn < mx" "0 \<le> mn" "mx \<le> 1"
    using assms(4-7) by (auto simp: mx_def mn_def)
  have "mx - mn = of_int (i - j) * 2 powi (- 1074)"
    by (simp add: mx mn algebra_simps)
  from fl_positive [OF this] order(1) have d: "0 < fl (mx - mn)" by simp
  have "mx + mn = of_int (i + j) * 2 powi (- 1074)"
    by (simp add: mx mn algebra_simps)
  from fl_positive [OF this] order have sum: "0 < fl (mx + mn)" by simp
  obtain k where two: "fl (2 - mx) = of_int k * 2 powi (- 1074)"
    using fl_grid [of "2 - mx"] by blast
  have "1 \<le> fl (2 - mx)"
    using fl_mono [of 1 "2 - mx"] order(3) by simp
  with order have pos: "0 < fl (2 - mx) - mn" by simp
  have "fl (2 - mx) - mn = of_int (k - j) * 2 powi (- 1074)"
    by (simp add: two mn algebra_simps)
  from fl_positive [OF this pos] have rest: "0 < fl (fl (2 - mx) - mn)" .
  from d sum rest show ?thesis
    by (simp only: fsub_def fadd_def mx_def mn_def)
qed

lemma fsub_bound:
  assumes "\<bar>u - v\<bar> \<le> m"
  shows "\<bar>fsub u v\<bar> \<le> fl m"
proof -
  from assms have "u - v \<le> m" "- m \<le> u - v" by simp_all
  then have "fl (u - v) \<le> fl m" "fl (- m) \<le> fl (u - v)"
    by (simp_all add: fl_mono)
  then show ?thesis
    by (simp add: fsub_def fl_minus abs_le_iff)
qed

lemma fl_minus_one [simp]: "fl (- 1) = - 1"
  by (simp add: fl_minus)

lemma fdiv_ratio:
  assumes "\<bar>x\<bar> \<le> d"
  shows "- 1 \<le> fdiv x d \<and> fdiv x d \<le> 1"
proof -
  have "- 1 \<le> x / d \<and> x / d \<le> 1"
  proof (cases "d = 0")
    case True
    then show ?thesis by simp
  next
    case False
    with assms have "0 < d" by simp
    with assms show ?thesis by (simp add: field_simps abs_le_iff)
  qed
  then have "- 1 \<le> fl (x / d) \<and> fl (x / d) \<le> 1"
    by (intro fl_between) simp_all
  then show ?thesis by (simp add: fdiv_def)
qed

lemma fdiv_sign:
  assumes "0 \<le> d"
  shows "u < v \<Longrightarrow> fdiv (fsub u v) d \<le> 0" and "\<not> u < v \<Longrightarrow> 0 \<le> fdiv (fsub u v) d"
proof -
  assume "u < v"
  then have "fl (u - v) \<le> fl 0" by (intro fl_mono) simp
  then have "fl (u - v) / d \<le> 0" using assms by (simp add: divide_le_0_iff)
  then have "fl (fl (u - v) / d) \<le> fl 0" by (rule fl_mono)
  then show "fdiv (fsub u v) d \<le> 0" by (simp add: fdiv_def fsub_def)
next
  assume "\<not> u < v"
  then have "fl 0 \<le> fl (u - v)" by (intro fl_mono) simp
  then have "0 \<le> fl (u - v) / d" using assms by simp
  then have "fl 0 \<le> fl (fl (u - v) / d)" by (rule fl_mono)
  then show "0 \<le> fdiv (fsub u v) d" by (simp add: fdiv_def fsub_def)
qed

lemma hue_step:
  assumes "0 \<le> q + k" "q + k \<le> 6"
  shows "0 \<le> fmul (fdiv (fadd q k) 6) 360 \<and> fmul (fdiv (fadd q k) 6) 360 \<le> 360"
proof -
  have "0 \<le> fl (q + k) \<and> fl (q + k) \<le> 6"
    using assms by (intro fl_between) simp_all
  then have "0 \<le> fl (q + k) / 6 \<and> fl (q + k) / 6 \<le> 1" by simp
  then have "0 \<le> fl (fl (q + k) / 6) \<and> fl (fl (q + k) / 6) \<le> 1"
    by (intro fl_between) simp_all
  then have "0 \<le> fl (fl (q + k) / 6) * 360 \<and> fl (fl (q + k) / 6) * 360 \<le> 360" by simp
  then have "0 \<le> fl (fl (fl (q + k) / 6) * 360) \<and> fl (fl (fl (q + k) / 6) * 360) \<le> 360"
    by (intro fl_between) simp_all
  then show ?thesis by (simp add: fmul_def fdiv_def fadd_def)
qed

lemma rgbToHsl_hue_range:
  assumes "rgbToHsl cr cg cb = (h, s, l)"
  shows "0 \<le> h \<and> h \<le> 360"
proof (cases "max cr (max cg cb) = min cr (min cg cb)")
  case True
  with assms show ?thesis by (simp add: rgbToHsl_def Let_def fmul_def)
next
  case False
  define mx where "mx = max cr (max cg cb)"
  define mn where "mn = min cr (min cg cb)"
  define d where "d = fsub mx mn"
  define H where
    "H = fmul (if mx = cr then fdiv (fadd (fdiv (fsub cg cb) d) (if cg < cb then 6 else 0)) 6
               else if mx = cg then fdiv (fadd (fdiv (fsub cb cr) d) 2) 6
               else if mx = cb then fdiv (fadd (fdiv (fsub cr cg) d) 4) 6
               else 0) 360"
  have "rgbToHsl cr cg cb =
      (H, (if fdiv (fadd mx mn) 2 > 0.5 then fdiv d (fsub (fsub 2 mx) mn)
           else fdiv d (fadd mx mn)), fdiv (fadd mx mn) 2)"
    using False unfolding rgbToHsl_def Let_def mx_def mn_def d_def H_def
    by (simp only: if_True not_False_eq_True)
  with assms have "H = h" by simp
  then have hdef:
    "h = fmul (if mx = cr then fdiv (fadd (fdiv (fsub cg cb) d) (if cg < cb then 6 else 0)) 6
               else if mx = cg then fdiv (fadd (fdiv (fsub cb cr) d) 2) 6
               else if mx = cb then fdiv (fadd (fdiv (fsub cr cg) d) 4) 6
               else 0) 360"
    by (simp only: H_def)
  have d_fl: "d = fl (mx - mn)" by (simp add: d_def fsub_def)
  have "0 \<le> mx - mn" by (auto simp: mx_def mn_def)
  then have d_nonneg: "0 \<le> d" unfolding d_fl by (rule fl_nonneg)
  have b1: "\<bar>cg - cb\<bar> \<le> mx - mn" "\<bar>cb - cr\<bar> \<le> mx - mn" "\<bar>cr - cg\<bar> \<le> mx - mn"
    by (auto simp: mx_def mn_def)
  note q1 = fdiv_ratio [OF fsub_bound [OF b1(1)], folded d_fl]
    fdiv_ratio [OF fsub_bound [OF b1(2)], folded d_fl]
    fdiv_ratio [OF fsub_bound [OF b1(3)], folded d_fl]
  show ?thesis
  proof (cases "mx = cr")
    case True
    show ?thesis
    proof (cases "cg < cb")
      case lt: True
      have "h = fmul (fdiv (fadd (fdiv (fsub cg cb) d) 6) 6) 360"
        using True lt by (simp only: hdef if_True if_False simp_thms)
      moreover have "0 \<le> fdiv (fsub cg cb) d + 6" "fdiv (fsub cg cb) d + 6 \<le> 6"
        using q1(1) fdiv_sign(1) [OF d_nonneg lt] by simp_all
      ultimately show ?thesis using hue_step by simp
    next
      case ge: False
      have "h = fmul (fdiv (fadd (fdiv (fsub cg cb) d) 0) 6) 360"
        using True ge by (simp only: hdef if_True if_False simp_thms)
      moreover have "0 \<le> fdiv (fsub cg cb) d + 0" "fdiv (fsub cg cb) d + 0 \<le> 6"
        using q1(1) fdiv_sign(2) [OF d_nonneg ge] by simp_all
      ultimately show ?thesis using hue_step by simp
    qed
  next
    case nr: False
    show ?thesis
    proof (cases "mx = cg")
      case True
      have "h = fmul (fdiv (fadd (fdiv (fsub cb cr) d) 2) 6) 360"
        using True nr by (simp only: hdef if_True if_False simp_thms)
      moreover have "0 \<le> fdiv (fsub cb cr) d + 2" "fdiv (fsub cb cr) d + 2 \<le> 6"
        using q1(2) by simp_all
      ultimately show ?thesis using hue_step by simp
    next
      case ng: False
      then have "mx = cb" using nr by (auto simp: mx_def max_def split: if_splits)
      then have "h = fmul (fdiv (fadd (fdiv (fsub cr cg) d) 4) 6) 360"
        using nr ng by (simp only: hdef if_True if_False simp_thms)
      moreover have "0 \<le> fdiv (fsub cr cg) d + 4" "fdiv (fsub cr cg) d + 4 \<le> 6"
        using q1(3) by simp_all
      ultimately show ?thesis using hue_step by simp
    qed
  qed
qed

text \<open>The number the host has for the literal \<^verbatim>\<open>0.12\<close>.\<close>

lemma gray_threshold: "fl (3 / 25) = 1080863910568919 / 2 ^ 53"
  using fl_eval [of "- 4" "3 / 25"] by (simp add: rte_eval)

lemma bucket_unique:
  assumes "0 \<le> h" "h < 360"
  shows "\<exists>!k. k \<in> set spec_hue_buckets \<and> in_bucket h k"
proof -
  consider "h < 20" | "20 \<le> h \<and> h < 45" | "45 \<le> h \<and> h < 70" | "70 \<le> h \<and> h < 165"
    | "165 \<le> h \<and> h < 200" | "200 \<le> h \<and> h < 260" | "260 \<le> h \<and> h < 300"
    | "300 \<le> h \<and> h < 340" | "340 \<le> h"
    by linarith
  then show ?thesis
  proof cases
    case 1
    with assms show ?thesis
      by (intro ex1I [of _ "(0, 20, red)"]) (auto simp: spec_hue_buckets_def in_bucket_def)
  next
    case 2
    then show ?thesis
      by (intro ex1I [of _ "(20, 45, orange)"]) (auto simp: spec_hue_buckets_def in_bucket_def)
  next
    case 3
    then show ?thesis
      by (intro ex1I [of _ "(45, 70, yellow)"]) (auto simp: spec_hue_buckets_def in_bucket_def)
  next
    case 4
    then show ?thesis
      by (intro ex1I [of _ "(70, 165, green)"]) (auto simp: spec_hue_buckets_def in_bucket_def)
  next
    case 5
    then show ?thesis
      by (intro ex1I [of _ "(165, 200, cyan)"]) (auto simp: spec_hue_buckets_def in_bucket_def)
  next
    case 6
    then show ?thesis
      by (intro ex1I [of _ "(200, 260, blue)"]) (auto simp: spec_hue_buckets_def in_bucket_def)
  next
    case 7
    then show ?thesis
      by (intro ex1I [of _ "(260, 300, purple)"]) (auto simp: spec_hue_buckets_def in_bucket_def)
  next
    case 8
    then show ?thesis
      by (intro ex1I [of _ "(300, 340, pink)"]) (auto simp: spec_hue_buckets_def in_bucket_def)
  next
    case 9
    with assms show ?thesis
      by (intro ex1I [of _ "(340, 360, red)"]) (auto simp: spec_hue_buckets_def in_bucket_def)
  qed
qed

lemma buckets_contiguous:
  "fst (hd spec_hue_buckets) = 0 \<and> fst (snd (last spec_hue_buckets)) = 360 \<and>
   (\<forall>i. Suc i < length spec_hue_buckets \<longrightarrow>
      fst (snd (spec_hue_buckets ! i)) = fst (spec_hue_buckets ! Suc i))"
proof -
  have "fst (snd (spec_hue_buckets ! i)) = fst (spec_hue_buckets ! Suc i)"
    if "Suc i < length spec_hue_buckets" for i
  proof -
    from that have "i < 8" by (simp add: spec_hue_buckets_def)
    then have "i = 0 \<or> i = 1 \<or> i = 2 \<or> i = 3 \<or> i = 4 \<or> i = 5 \<or> i = 6 \<or> i = 7"
      by arith
    then show ?thesis
      by (elim disjE) (simp_all add: spec_hue_buckets_def)
  qed
  then show ?thesis by (simp add: spec_hue_buckets_def)
qed

lemma detectColorRole_of_hsl:
  assumes "rgbToHsl cr cg cb = (h, s, l)"
  shows "detectColorRole cr cg cb =
     (if s < fl (12 / 100) then gray
        else if h \<ge> 0 \<and> h < 20 then red
        else if h \<ge> 20 \<and> h < 45 then orange
        else if h \<ge> 45 \<and> h < 70 then yellow
        else if h \<ge> 70 \<and> h < 165 then green
        else if h \<ge> 165 \<and> h < 200 then cyan
        else if h \<ge> 200 \<and> h < 260 then blue
        else if h \<ge> 260 \<and> h < 300 then purple
        else if h \<ge> 300 \<and> h < 340 then pink
        else red)"
  by (simp only: detectColorRole_def assms prod.case)

lemma role_of_bucket:
  assumes "rgbToHsl cr cg cb = (h, s, l)" "\<not> s < fl (12 / 100)"
    and "k \<in> set spec_hue_buckets" "in_bucket h k"
  shows "detectColorRole cr cg cb = snd (snd k)"
proof -
  from assms(3) have
    "k = (0, 20, red) \<or> k = (20, 45, orange) \<or> k = (45, 70, yellow) \<or>
     k = (70, 165, green) \<or> k = (165, 200, cyan) \<or> k = (200, 260, blue) \<or>
     k = (260, 300, purple) \<or> k = (300, 340, pink) \<or> k = (340, 360, red)"
    by (simp add: spec_hue_buckets_def)
  then show ?thesis
    using assms(2,4)
    by (elim disjE) (simp_all add: in_bucket_def detectColorRole_of_hsl [OF assms(1)])
qed

lemma role_at_360:
  assumes "rgbToHsl cr cg cb = (360, s, l)" "\<not> s < fl (12 / 100)"
  shows "detectColorRole cr cg cb = red"
  using assms(2) by (simp add: detectColorRole_of_hsl [OF assms(1)])

text \<open>
  The hue of the colour \<open>(1, 0, 2 powi (-60))\<close>, whose components are numbers of the host in
  the unit interval: green minus blue is \<open>- 2 powi (-60)\<close>, the sum of that and 6 is
  rounded to 6, and the hue is 360.
\<close>

lemma tiny_blue: "fl (- (1 / 2 ^ 60)) = - (1 / 2 ^ 60)" "fl (1 / 2 ^ 60) = 1 / 2 ^ 60"
  using fl_exact [of "- 1" "- 60"] fl_exact [of 1 "- 60"] by simp_all

lemma six_less_tiny: "fl (6 - 1 / 2 ^ 60) = 6"
  using fl_eval [of 2 "6 - 1 / 2 ^ 60"] by (simp add: rte_eval)

lemma rgbToHsl_hue_360: "rgbToHsl 1 0 (1 / 2 ^ 60) = (360, 1, 1 / 2)"
proof -
  have mx: "max 1 (max 0 (1 / 2 ^ 60)) = (1::real)" and mn: "min 1 (min 0 (1 / 2 ^ 60)) = (0::real)"
    by simp_all
  have l: "fdiv (fadd 1 0) 2 = 1 / 2" and d: "fsub 1 0 = 1" and s: "fdiv 1 (fadd 1 0) = 1"
    by (simp_all add: fdiv_def fadd_def fsub_def)
  have q: "fdiv (fsub 0 (1 / 2 ^ 60)) 1 = - (1 / 2 ^ 60)"
    using tiny_blue(1) by (simp add: fdiv_def fsub_def)
  have h: "fmul (fdiv (fadd (- (1 / 2 ^ 60)) 6) 6) 360 = 360"
    using six_less_tiny by (simp add: fmul_def fdiv_def fadd_def)
  show ?thesis
    unfolding rgbToHsl_def Let_def mx mn l d s q using h by simp
qed

text \<open>
  Claim C3, as stated, evaluated at the colour \<open>(1, 0, 2 powi (-60))\<close>. Its components are
  numbers of the host in the unit interval and its saturation is 1, so it is not gray; the
  hue the source computes for it is 360, which is not in \<open>[0, 360)\<close> and in no bucket of
  the table. The classifier returns \<open>red\<close> through its last line.
\<close>

theorem hue_reaches_360:
  "is_double 1 \<and> is_double 0 \<and> is_double (1 / 2 ^ 60) \<and>
   (0::real) \<le> 1 / 2 ^ 60 \<and> (1 / 2 ^ 60 :: real) \<le> 1 \<and>
   rgbToHsl 1 0 (1 / 2 ^ 60) = (360, 1, 1 / 2) \<and> \<not> (1::real) < fl (12 / 100) \<and>
   \<not> (360::real) < 360 \<and> filter (in_bucket 360) spec_hue_buckets = [] \<and>
   detectColorRole 1 0 (1 / 2 ^ 60) = red"
proof -
  have c1: "is_double 1" "is_double 0" by (rule is_double_unit)+
  have c2: "is_double (1 / 2 ^ 60)"
    using tiny_blue(2) by (simp add: is_double_def)
  have c3: "(0::real) \<le> 1 / 2 ^ 60" "(1 / 2 ^ 60 :: real) \<le> 1" by simp_all
  have c4: "\<not> (1::real) < fl (12 / 100)"
    by (simp add: gray_threshold)
  have c5: "filter (in_bucket 360) spec_hue_buckets = []"
    by (simp add: in_bucket_def spec_hue_buckets_def)
  have c6: "detectColorRole 1 0 (1 / 2 ^ 60) = red"
    using role_at_360 [OF rgbToHsl_hue_360 c4] .
  from c1 c2 c3 rgbToHsl_hue_360 c4 c5 c6 show ?thesis by simp
qed

text \<open>
  Claim C3, amended. For components that are numbers of the host in the unit interval,
  with \<open>(h, s, l)\<close> the result of \<open>rgbToHsl\<close> as the host computes it: the classifier
  returns \<open>gray\<close> exactly when \<open>s\<close> is below the number the host has for \<^verbatim>\<open>0.12\<close>; the hue
  lies in \<open>[0, 360]\<close>, the bound 360 included; a hue below 360 lies in exactly one bucket
  of the specification's table, and when the colour is not gray the classifier returns
  the role of that bucket; at the hue 360 a colour that is not gray is classified \<open>red\<close>;
  and the table starts at 0, ends at 360 and each bucket begins where the one before it
  ends. So the classifier is total and returns one of the nine roles.
\<close>

theorem detectColorRole_buckets:
  assumes "is_double cr" "is_double cg" "is_double cb"
    and "0 \<le> cr \<and> cr \<le> 1" "0 \<le> cg \<and> cg \<le> 1" "0 \<le> cb \<and> cb \<le> 1"
    and "rgbToHsl cr cg cb = (h, s, l)"
  shows "(detectColorRole cr cg cb = gray \<longleftrightarrow> s < fl (12 / 100)) \<and>
         0 \<le> h \<and> h \<le> 360 \<and>
         (h < 360 \<longrightarrow> (\<exists>!k. k \<in> set spec_hue_buckets \<and> in_bucket h k)) \<and>
         (\<not> s < fl (12 / 100) \<longrightarrow>
            (\<forall>k\<in>set spec_hue_buckets. in_bucket h k \<longrightarrow> detectColorRole cr cg cb = snd (snd k)) \<and>
            (h = 360 \<longrightarrow> detectColorRole cr cg cb = red)) \<and>
         fst (hd spec_hue_buckets) = 0 \<and> fst (snd (last spec_hue_buckets)) = 360 \<and>
         (\<forall>i. Suc i < length spec_hue_buckets \<longrightarrow>
            fst (snd (spec_hue_buckets ! i)) = fst (spec_hue_buckets ! Suc i))"
proof -
  note hr = rgbToHsl_hue_range [OF assms(7)]
  have gray_iff: "detectColorRole cr cg cb = gray \<longleftrightarrow> s < fl (12 / 100)"
    unfolding detectColorRole_of_hsl [OF assms(7)] by simp
  have uniq: "\<exists>!k. k \<in> set spec_hue_buckets \<and> in_bucket h k" if "h < 360"
    using hr that by (simp add: bucket_unique)
  have top: "detectColorRole cr cg cb = red" if "\<not> s < fl (12 / 100)" "h = 360"
    using role_at_360 [of cr cg cb s l] assms(7) that by simp
  show ?thesis
    using gray_iff hr uniq top role_of_bucket [OF assms(7)] buckets_contiguous by blast
qed

lemma fl_blue_steps:
  "fl (- (1 / 4)) = - (1 / 4)" "fl (1 / 4) = 1 / 4" "fl (15 / 4) = 15 / 4" "fl (5 / 8) = 5 / 8"
  "fl 225 = 225"
  using fl_exact [of "- 1" "- 2"] fl_exact [of 1 "- 2"] fl_exact [of 15 "- 2"]
    fl_exact [of 5 "- 3"] fl_of_int [of 225]
  by simp_all

lemma rgbToHsl_azure: "rgbToHsl 0 (1 / 4) 1 = (225, 1, 1 / 2)"
  by (simp add: rgbToHsl_def Let_def fdiv_def fadd_def fsub_def fmul_def fl_blue_steps)

theorem detectColorRole_buckets_witness:
  "is_double 0 \<and> is_double (1 / 4) \<and> is_double 1 \<and> (0::real) \<le> 1 / 4 \<and> (1 / 4 :: real) \<le> 1 \<and>
   rgbToHsl 0 (1 / 4) 1 = (225, 1, 1 / 2) \<and> detectColorRole 0 (1 / 4) 1 \<noteq> gray \<and>
   (225::real) < 360 \<and> in_bucket 225 (200, 260, blue) \<and>
   (200, 260, blue) \<in> set spec_hue_buckets \<and> detectColorRole 0 (1 / 4) 1 = blue"
proof -
  have dbl: "is_double 0" "is_double (1 / 4)" "is_double 1"
    by (simp_all add: is_double_def fl_blue_steps)
  have rng: "(0::real) \<le> 0 \<and> (0::real) \<le> 1" "(0::real) \<le> 1 / 4 \<and> (1 / 4 :: real) \<le> 1"
    "(0::real) \<le> 1 \<and> (1::real) \<le> 1"
    by simp_all
  have thr: "\<not> (1::real) < fl (12 / 100)"
    by (simp add: gray_threshold)
  have bucket: "in_bucket 225 (200, 260, blue)" "(200, 260, blue) \<in> set spec_hue_buckets"
    by (simp_all add: in_bucket_def spec_hue_buckets_def)
  from detectColorRole_buckets [OF dbl rng rgbToHsl_azure] thr bucket
  have "detectColorRole 0 (1 / 4) 1 \<noteq> gray" "detectColorRole 0 (1 / 4) 1 = blue"
    by auto
  with dbl rgbToHsl_azure bucket show ?thesis by simp
qed

subsection \<open>Colours where the rounding decides\<close>

text \<open>
  The values the host computes, operation by operation, for four colours and two
  lightnesses at which exact arithmetic would give another result: the hue of
  \<open>(0.625, 0.75, 0)\<close> falls just below 70, the saturation of \<^verbatim>\<open>#21212A\<close> just below the
  threshold, the hue of \<^verbatim>\<open>#002E45\<close> just below 200; the level of \<^verbatim>\<open>#020253\<close> is 8, the
  channel \<^verbatim>\<open>0.3\<close> is rendered \<^verbatim>\<open>4d\<close>, and the lightness \<^verbatim>\<open>0.55\<close> has the shade 500.
\<close>

lemma olive_steps:
  "fl (3 / 4) = 3 / 4" "fl (3 / 8) = 3 / 8" "fl (- (5 / 8)) = - (5 / 8)"
  "fl (- (5 / 6)) = - (7505999378950827 / 9007199254740992)"
  "fl (10508399130531157 / 9007199254740992) = 2627099782632789 / 2251799813685248"
  "fl (875699927544263 / 4503599627370496) = 875699927544263 / 4503599627370496"
  "fl (39406496739491835 / 562949953421312) = 4925812092436479 / 70368744177664"
  using fl_eval [of "- 1" "3 / 4"] fl_eval [of "- 2" "3 / 8"] fl_eval [of "- 1" "- (5 / 8)"]
    fl_eval [of "- 1" "- (5 / 6)"] fl_eval [of "0" "10508399130531157 / 9007199254740992"]
    fl_eval [of "- 3" "875699927544263 / 4503599627370496"]
    fl_eval [of "6" "39406496739491835 / 562949953421312"]
  by (simp_all add: rte_eval)

lemma rgbToHsl_olive: "rgbToHsl (5 / 8) (3 / 4) 0 = (4925812092436479 / 70368744177664, 1, 3 / 8)"
  by (simp add: rgbToHsl_def Let_def fdiv_def fadd_def fsub_def fmul_def olive_steps)

lemma role_olive: "detectColorRole (5 / 8) (3 / 4) 0 = yellow"
  by (simp add: detectColorRole_def rgbToHsl_olive gray_threshold)

lemma slate_steps:
  "fl (11 / 85) = 4662550202454161 / 36028797018963968"
  "fl (14 / 85) = 5934154803123477 / 36028797018963968"
  "fl (5298352502788819 / 18014398509481984) = 5298352502788819 / 18014398509481984"
  "fl (5298352502788819 / 36028797018963968) = 5298352502788819 / 36028797018963968"
  "fl (317901150167329 / 9007199254740992) = 317901150167329 / 9007199254740992"
  "fl (635802300334658 / 5298352502788819) = 8646911284551349 / 72057594037927936"
  "fl (2 / 3) = 6004799503160661 / 9007199254740992"
  "fl (270215977642229745 / 1125899906842624) = 240"
  using fl_eval [of "- 3" "11 / 85"] fl_eval [of "- 3" "14 / 85"]
    fl_eval [of "- 2" "5298352502788819 / 18014398509481984"]
    fl_eval [of "- 3" "5298352502788819 / 36028797018963968"]
    fl_eval [of "- 5" "317901150167329 / 9007199254740992"]
    fl_eval [of "- 4" "635802300334658 / 5298352502788819"] fl_eval [of "- 1" "2 / 3"]
    fl_eval [of "7" "270215977642229745 / 1125899906842624"]
  by (simp_all add: rte_eval)

lemma rgbToHsl_slate:
  "rgbToHsl (fdiv 33 255) (fdiv 33 255) (fdiv 42 255) =
     (240, 8646911284551349 / 72057594037927936, 5298352502788819 / 36028797018963968)"
  by (simp add: rgbToHsl_def Let_def fdiv_def fadd_def fsub_def fmul_def slate_steps)

lemma role_slate: "detectColorRole (fdiv 33 255) (fdiv 33 255) (fdiv 42 255) = gray"
  by (simp add: detectColorRole_def rgbToHsl_slate gray_threshold)

lemma teal_steps:
  "fl (46 / 255) = 6499312403420951 / 36028797018963968"
  "fl (23 / 85) = 4874484302565713 / 18014398509481984"
  "fl (4874484302565713 / 18014398509481984) = 4874484302565713 / 18014398509481984"
  "fl (4874484302565713 / 36028797018963968) = 4874484302565713 / 36028797018963968"
  "fl (- (6499312403420951 / 36028797018963968)) = - (6499312403420951 / 36028797018963968)"
  "fl (- (6499312403420951 / 9748968605131426)) = - (3002399751580331 / 4503599627370496)"
  "fl (15011998757901653 / 4503599627370496) = 3752999689475413 / 1125899906842624"
  "fl (3752999689475413 / 6755399441055744) = 5003999585967217 / 9007199254740992"
  "fl (225179981368524765 / 1125899906842624) = 7036874417766399 / 35184372088832"
  using fl_eval [of "- 3" "46 / 255"] fl_eval [of "- 2" "23 / 85"]
    fl_eval [of "- 2" "4874484302565713 / 18014398509481984"]
    fl_eval [of "- 3" "4874484302565713 / 36028797018963968"]
    fl_eval [of "- 3" "- (6499312403420951 / 36028797018963968)"]
    fl_eval [of "- 1" "- (6499312403420951 / 9748968605131426)"]
    fl_eval [of "1" "15011998757901653 / 4503599627370496"]
    fl_eval [of "- 1" "3752999689475413 / 6755399441055744"]
    fl_eval [of "7" "225179981368524765 / 1125899906842624"]
  by (simp_all add: rte_eval)

lemma rgbToHsl_teal:
  "rgbToHsl 0 (fdiv 46 255) (fdiv 69 255) =
     (7036874417766399 / 35184372088832, 1, 4874484302565713 / 36028797018963968)"
  by (simp add: rgbToHsl_def Let_def fdiv_def fadd_def fsub_def fmul_def teal_steps)

lemma role_teal: "detectColorRole 0 (fdiv 46 255) (fdiv 69 255) = cyan"
  by (simp add: detectColorRole_def rgbToHsl_teal gray_threshold)

lemma navy_steps:
  "fl (2 / 255) = 282578800148737 / 36028797018963968"
  "fl (83 / 255) = 5863510103086293 / 18014398509481984"
  "fl (12009599006321323 / 36028797018963968) = 3002399751580331 / 9007199254740992"
  "fl (3002399751580331 / 18014398509481984) = 3002399751580331 / 18014398509481984"
  "fl (11444441406023849 / 36028797018963968) = 1430555175752981 / 4503599627370496"
  "fl (2861110351505962 / 3002399751580331) = 8583331054517885 / 9007199254740992"
  "fl (2 / 3) = 6004799503160661 / 9007199254740992"
  "fl (270215977642229745 / 1125899906842624) = 240"
  "fl (15011998757901653 / 18014398509481984) = 3752999689475413 / 4503599627370496"
  "fl (33776997205278717 / 4503599627370496) = 8444249301319679 / 1125899906842624"
  using fl_eval [of "- 7" "2 / 255"] fl_eval [of "- 2" "83 / 255"]
    fl_eval [of "- 2" "12009599006321323 / 36028797018963968"]
    fl_eval [of "- 3" "3002399751580331 / 18014398509481984"]
    fl_eval [of "- 2" "11444441406023849 / 36028797018963968"]
    fl_eval [of "- 1" "2861110351505962 / 3002399751580331"] fl_eval [of "- 1" "2 / 3"]
    fl_eval [of "7" "270215977642229745 / 1125899906842624"]
    fl_eval [of "- 1" "15011998757901653 / 18014398509481984"]
    fl_eval [of "2" "33776997205278717 / 4503599627370496"]
  by (simp_all add: rte_eval)

lemma rgbToHsl_navy:
  "rgbToHsl (fdiv 2 255) (fdiv 2 255) (fdiv 83 255) =
     (240, 8583331054517885 / 9007199254740992, 3002399751580331 / 18014398509481984)"
  by (simp add: rgbToHsl_def Let_def fdiv_def fadd_def fsub_def fmul_def navy_steps)

lemma level_navy: "lightnessToAntLevel (3002399751580331 / 18014398509481984) = 8"
  by (simp add: lightnessToAntLevel_def fsub_def fmul_def Math_round_def navy_steps)

lemma channel_steps:
  "fl (3 / 10) = 5404319552844595 / 18014398509481984"
  "fl (1378101485975371725 / 18014398509481984) = 153 / 2"
  using fl_eval [of "- 2" "3 / 10"] fl_eval [of "6" "1378101485975371725 / 18014398509481984"]
  by (simp_all add: rte_eval)

lemma toHex_0_3: "toHex (fl (3 / 10)) = ''4d''"
  by (simp add: toHex_def fmul_def Math_round_def number_toString_def digits_of_small
      digits_of_step digit_char_def padStart2_def channel_steps)

lemma shade_steps:
  "fl (11 / 20) = 2476979795053773 / 4503599627370496"
  "fl (2026619832316723 / 4503599627370496) = 2026619832316723 / 4503599627370496"
  "fl (10133099161583615 / 2251799813685248) = 9 / 2"
  using fl_eval [of "- 1" "11 / 20"] fl_eval [of "- 2" "2026619832316723 / 4503599627370496"]
    fl_eval [of "2" "10133099161583615 / 2251799813685248"]
  by (simp_all add: rte_eval)

lemma lightnessToShade_0_55: "lightnessToShade (fl (11 / 20)) = 500"
  by (simp add: lightnessToShade_def shades_def fsub_def fmul_def Math_round_def shade_steps)

subsection \<open>The naming engine\<close>

lemma candidateName_shape:
  "candidateName pattern customPrefix c = [] \<or> CHR ''-'' \<in> set (candidateName pattern customPrefix c)"
  by (simp add: candidateName_def Let_def split: prod.splits)

lemma nameColors_length [simp]:
  "length (nameColors pattern customPrefix roleCount cs) = length cs"
  by (induction cs arbitrary: roleCount) (auto simp: Let_def split: option.splits)

lemma nameColors_erase:
  "map (\<lambda>c. c\<lparr>tokenName := []\<rparr>) (nameColors pattern customPrefix roleCount cs) =
   map (\<lambda>c. c\<lparr>tokenName := []\<rparr>) cs"
  by (induction cs arbitrary: roleCount) (auto simp: Let_def split: option.splits)

lemma erase_eq:
  fixes c d :: ExtractedColor
  assumes "c\<lparr>tokenName := []\<rparr> = d\<lparr>tokenName := []\<rparr>"
  shows "c = d\<lparr>tokenName := tokenName c\<rparr>"
  using assms by (cases c, cases d) simp

lemma nameColors_nth_frame:
  assumes "i < length cs"
  shows "nameColors pattern customPrefix roleCount cs ! i =
       (cs ! i)\<lparr>tokenName := tokenName (nameColors pattern customPrefix roleCount cs ! i)\<rparr>"
proof -
  have "map (\<lambda>c. c\<lparr>tokenName := []\<rparr>) (nameColors pattern customPrefix roleCount cs) ! i =
        map (\<lambda>c. c\<lparr>tokenName := []\<rparr>) cs ! i"
    by (simp only: nameColors_erase)
  with assms have "(nameColors pattern customPrefix roleCount cs ! i)\<lparr>tokenName := []\<rparr> =
        (cs ! i)\<lparr>tokenName := []\<rparr>"
    by simp
  then show ?thesis by (rule erase_eq)
qed

lemma nameColors_nth_name:
  "i < length cs \<Longrightarrow>
     tokenName (nameColors pattern customPrefix roleCount cs ! i) =
       (let name = candidateName pattern customPrefix (cs ! i);
            k = earlier_same pattern customPrefix cs i
        in case roleCount name of
             None \<Rightarrow> if k = 0 then name else name @ ''-'' @ number_toString 10 (int k)
           | Some n \<Rightarrow> name @ ''-'' @ number_toString 10 (int (n + 1 + k)))"
proof (induction cs arbitrary: roleCount i)
  case Nil
  then show ?case by simp
next
  case (Cons c cs)
  show ?case
  proof (cases i)
    case 0
    then show ?thesis by (simp add: Let_def earlier_same_def split: option.splits)
  next
    case (Suc j)
    with Cons.prems have j: "j < length cs" by simp
    show ?thesis
      using Cons.IH [OF j] Suc
      by (auto simp: Let_def earlier_same_def split: option.splits)
  qed
qed

lemma candidateName_unknown:
  "pattern \<notin> {''material'', ''tailwind'', ''antd'', ''wcag'', ''custom''} \<Longrightarrow>
     candidateName pattern customPrefix c = []"
  by (simp add: candidateName_def Let_def split: prod.splits)

text \<open>The candidate names and the assigned names of the sample inputs.\<close>

lemma number_toString_decimal:
  "number_toString 10 1 = ''1''" "number_toString 10 2 = ''2''"
  "number_toString 10 50 = ''50''" "number_toString 10 500 = ''500''"
  by (simp_all add: number_toString_def digits_of_small digits_of_step digit_char_def)

lemma sample_sel [simp]:
  "hex (sample cr cg cb src) = rgbToHex cr cg cb" "r (sample cr cg cb src) = cr"
  "g (sample cr cg cb src) = cg" "b (sample cr cg cb src) = cb"
  "source (sample cr cg cb src) = src" "tokenName (sample cr cg cb src) = []"
  by (simp_all add: sample_def)

text \<open>
  Blues of lightness one half, \<open>(0, t, 1)\<close> and \<open>(t, 0, 1)\<close> with \<open>t\<close> up to a quarter:
  whatever the rounding does, the hue stays between 225 and 259.
\<close>

lemma fl_dyadic:
  "fl (1 / 4) = 1 / 4" "fl (- (1 / 4)) = - (1 / 4)" "fl (15 / 4) = 15 / 4" "fl (17 / 4) = 17 / 4"
  "fl (5 / 8) = 5 / 8" "fl (11 / 16) = 11 / 16" "fl (23 / 32) = 23 / 32"
  "fl 225 = 225" "fl (495 / 2) = 495 / 2" "fl (1035 / 4) = 1035 / 4"
  using fl_exact [of 1 "- 2"] fl_exact [of "- 1" "- 2"] fl_exact [of 15 "- 2"]
    fl_exact [of 17 "- 2"] fl_exact [of 5 "- 3"] fl_exact [of 11 "- 4"] fl_exact [of 23 "- 5"]
    fl_of_int [of 225] fl_exact [of 495 "- 1"] fl_exact [of 1035 "- 2"]
  by simp_all

lemma rgbToHsl_blue_green:
  assumes "0 \<le> t" "t \<le> 1 / 4"
  shows "rgbToHsl 0 t 1 = (fmul (fdiv (fadd (fdiv (fsub 0 t) 1) 4) 6) 360, 1, 1 / 2)"
proof -
  from assms have mx: "max 0 (max t 1) = 1" and mn: "min 0 (min t 1) = 0" and ne: "1 \<noteq> t"
    by simp_all
  have l: "fdiv (fadd 1 0) 2 = 1 / 2" and d: "fsub 1 0 = 1" and s: "fdiv 1 (fadd 1 0) = 1"
    by (simp_all add: fdiv_def fadd_def fsub_def)
  show ?thesis
    unfolding rgbToHsl_def Let_def mx mn l d s using ne by simp
qed

lemma rgbToHsl_blue_red:
  assumes "0 \<le> t" "t \<le> 1 / 4"
  shows "rgbToHsl t 0 1 = (fmul (fdiv (fadd (fdiv (fsub t 0) 1) 4) 6) 360, 1, 1 / 2)"
proof -
  from assms have mx: "max t (max 0 1) = 1" and mn: "min t (min 0 1) = 0" and ne: "1 \<noteq> t"
    by simp_all
  have l: "fdiv (fadd 1 0) 2 = 1 / 2" and d: "fsub 1 0 = 1" and s: "fdiv 1 (fadd 1 0) = 1"
    by (simp_all add: fdiv_def fadd_def fsub_def)
  show ?thesis
    unfolding rgbToHsl_def Let_def mx mn l d s using ne by simp
qed

lemma hue_blue_green:
  assumes "0 \<le> t" "t \<le> 1 / 4"
  shows "225 \<le> fmul (fdiv (fadd (fdiv (fsub 0 t) 1) 4) 6) 360 \<and>
         fmul (fdiv (fadd (fdiv (fsub 0 t) 1) 4) 6) 360 \<le> 495 / 2"
proof -
  have "- (1 / 4) \<le> fl (0 - t) \<and> fl (0 - t) \<le> 0"
    using assms by (intro fl_between) (simp_all add: fl_dyadic)
  then have "- (1 / 4) \<le> fl (fl (0 - t) / 1) \<and> fl (fl (0 - t) / 1) \<le> 0"
    by (intro fl_between) (simp_all add: fl_dyadic)
  then have "15 / 4 \<le> fl (fl (0 - t) / 1) + 4 \<and> fl (fl (0 - t) / 1) + 4 \<le> 4"
    by simp
  then have "15 / 4 \<le> fl (fl (fl (0 - t) / 1) + 4) \<and> fl (fl (fl (0 - t) / 1) + 4) \<le> 4"
    by (intro fl_between) (simp_all add: fl_dyadic)
  then have "5 / 8 \<le> fl (fl (fl (0 - t) / 1) + 4) / 6 \<and>
      fl (fl (fl (0 - t) / 1) + 4) / 6 \<le> 11 / 16"
    by simp
  then have "5 / 8 \<le> fl (fl (fl (fl (0 - t) / 1) + 4) / 6) \<and>
      fl (fl (fl (fl (0 - t) / 1) + 4) / 6) \<le> 11 / 16"
    by (intro fl_between) (simp_all add: fl_dyadic)
  then have "225 \<le> fl (fl (fl (fl (0 - t) / 1) + 4) / 6) * 360 \<and>
      fl (fl (fl (fl (0 - t) / 1) + 4) / 6) * 360 \<le> 495 / 2"
    by simp
  then have "225 \<le> fl (fl (fl (fl (fl (0 - t) / 1) + 4) / 6) * 360) \<and>
      fl (fl (fl (fl (fl (0 - t) / 1) + 4) / 6) * 360) \<le> 495 / 2"
    by (intro fl_between) (simp_all add: fl_dyadic)
  then show ?thesis
    by (simp only: fmul_def fdiv_def fadd_def fsub_def)
qed

lemma hue_blue_red:
  assumes "0 \<le> t" "t \<le> 1 / 4"
  shows "225 \<le> fmul (fdiv (fadd (fdiv (fsub t 0) 1) 4) 6) 360 \<and>
         fmul (fdiv (fadd (fdiv (fsub t 0) 1) 4) 6) 360 \<le> 1035 / 4"
proof -
  have "0 \<le> fl (t - 0) \<and> fl (t - 0) \<le> 1 / 4"
    using assms by (intro fl_between) (simp_all add: fl_dyadic)
  then have "0 \<le> fl (fl (t - 0) / 1) \<and> fl (fl (t - 0) / 1) \<le> 1 / 4"
    by (intro fl_between) (simp_all add: fl_dyadic)
  then have "4 \<le> fl (fl (t - 0) / 1) + 4 \<and> fl (fl (t - 0) / 1) + 4 \<le> 17 / 4"
    by simp
  then have "4 \<le> fl (fl (fl (t - 0) / 1) + 4) \<and> fl (fl (fl (t - 0) / 1) + 4) \<le> 17 / 4"
    by (intro fl_between) (simp_all add: fl_dyadic)
  then have "5 / 8 \<le> fl (fl (fl (t - 0) / 1) + 4) / 6 \<and>
      fl (fl (fl (t - 0) / 1) + 4) / 6 \<le> 23 / 32"
    by simp
  then have "5 / 8 \<le> fl (fl (fl (fl (t - 0) / 1) + 4) / 6) \<and>
      fl (fl (fl (fl (t - 0) / 1) + 4) / 6) \<le> 23 / 32"
    by (intro fl_between) (simp_all add: fl_dyadic)
  then have "225 \<le> fl (fl (fl (fl (t - 0) / 1) + 4) / 6) * 360 \<and>
      fl (fl (fl (fl (t - 0) / 1) + 4) / 6) * 360 \<le> 1035 / 4"
    by simp
  then have "225 \<le> fl (fl (fl (fl (fl (t - 0) / 1) + 4) / 6) * 360) \<and>
      fl (fl (fl (fl (fl (t - 0) / 1) + 4) / 6) * 360) \<le> 1035 / 4"
    by (intro fl_between) (simp_all add: fl_dyadic)
  then show ?thesis
    by (simp only: fmul_def fdiv_def fadd_def fsub_def)
qed

lemma not_gray_at_one: "\<not> (1::real) < fl (12 / 100)"
  by (simp add: gray_threshold)

lemma lightnessToShade_half: "lightnessToShade (1 / 2) = 500"
  by (simp add: lightnessToShade_def shades_def fsub_def fmul_def Math_round_def)

lemma role_blue_green:
  assumes "0 \<le> t" "t \<le> 1 / 4"
  shows "detectColorRole 0 t 1 = blue"
  using detectColorRole_of_hsl [OF rgbToHsl_blue_green [OF assms]] hue_blue_green [OF assms]
    not_gray_at_one
  by simp

lemma role_blue_red:
  assumes "0 \<le> t" "t \<le> 1 / 4"
  shows "detectColorRole t 0 1 = blue"
  using detectColorRole_of_hsl [OF rgbToHsl_blue_red [OF assms]] hue_blue_red [OF assms]
    not_gray_at_one
  by simp

lemma candidateName_blue_green:
  assumes "0 \<le> t" "t \<le> 1 / 4"
  shows "candidateName ''tailwind'' x (sample 0 t 1 src) = ''blue-500''"
    and "candidateName ''material'' x (sample 0 t 1 src) = ''color-primary''"
proof -
  note hsl = rgbToHsl_blue_green [OF assms]
  show "candidateName ''tailwind'' x (sample 0 t 1 src) = ''blue-500''"
    by (simp add: candidateName_def hsl role_blue_green [OF assms] lightnessToShade_half
        number_toString_decimal)
  show "candidateName ''material'' x (sample 0 t 1 src) = ''color-primary''"
    by (simp add: candidateName_def hsl role_blue_green [OF assms] lightnessToShade_half)
qed

lemma candidateName_blue_red:
  assumes "0 \<le> t" "t \<le> 1 / 4"
  shows "candidateName ''tailwind'' x (sample t 0 1 src) = ''blue-500''"
proof -
  note hsl = rgbToHsl_blue_red [OF assms]
  show ?thesis
    by (simp add: candidateName_def hsl role_blue_red [OF assms] lightnessToShade_half
        number_toString_decimal)
qed

text \<open>The components \<^verbatim>\<open>k / 255\<close> of the blues, up to \<open>k = 63\<close>, are at most a quarter.\<close>

lemma channel_small:
  assumes "k \<le> 63"
  shows "0 \<le> fdiv (real k) 255 \<and> fdiv (real k) 255 \<le> 1 / 4"
proof -
  from assms have "real k \<le> 63" by simp
  then have "0 \<le> real k / 255 \<and> real k / 255 \<le> 1 / 4" by simp
  then have "0 \<le> fl (real k / 255) \<and> fl (real k / 255) \<le> 1 / 4"
    by (intro fl_between) (simp_all add: fl_dyadic)
  then show ?thesis by (simp only: fdiv_def)
qed

lemma channel_51: "0 \<le> fdiv 51 255 \<and> fdiv 51 255 \<le> 1 / 4"
  using channel_small [of 51] by simp

lemma three_blues_candidates:
  "map (candidateName ''tailwind'' x) three_blues = [''blue-500'', ''blue-500'', ''blue-500'']"
  using channel_51
  by (simp add: three_blues_def candidateName_blue_green candidateName_blue_red)

text \<open>
  The pale blue \<open>(p, p, 1)\<close> with \<open>p\<close> the number the host has for \<^verbatim>\<open>243 / 255\<close>: hue 240,
  saturation 1, a lightness between \<open>31 / 32\<close> and \<open>63 / 64\<close>, shade 50.
\<close>

lemma fl_pale:
  "fl (15 / 16) = 15 / 16" "fl (31 / 32) = 31 / 32" "fl (63 / 64) = 63 / 64"
  "fl (1 / 64) = 1 / 64" "fl (1 / 32) = 1 / 32" "fl (1 / 16) = 1 / 16"
  "fl (31 / 16) = 31 / 16" "fl (63 / 32) = 63 / 32" "fl (5 / 32) = 5 / 32" "fl (5 / 16) = 5 / 16"
  using fl_exact [of 15 "- 4"] fl_exact [of 31 "- 5"] fl_exact [of 63 "- 6"]
    fl_exact [of 1 "- 6"] fl_exact [of 1 "- 5"] fl_exact [of 1 "- 4"]
    fl_exact [of 31 "- 4"] fl_exact [of 63 "- 5"] fl_exact [of 5 "- 5"] fl_exact [of 5 "- 4"]
  by simp_all

lemma channel_243: "15 / 16 \<le> fdiv 243 255 \<and> fdiv 243 255 \<le> 31 / 32"
proof -
  have "15 / 16 \<le> fl (243 / 255) \<and> fl (243 / 255) \<le> 31 / 32"
    by (intro fl_between) (simp_all add: fl_pale)
  then show ?thesis by (simp only: fdiv_def)
qed

lemma two_thirds: "fl (2 / 3) = 6004799503160661 / 2 ^ 53"
  using fl_eval [of "- 1" "2 / 3"] by (simp add: rte_eval)

lemma hue_240: "fmul (fdiv 4 6) 360 = 240"
  using fl_eval [of 7 "6004799503160661 / 2 ^ 53 * 360"]
  by (simp add: fmul_def fdiv_def two_thirds rte_eval)

lemma rgbToHsl_pure_blue: "rgbToHsl 0 0 1 = (240, 1, 1 / 2)"
  using rgbToHsl_blue_green [of 0] hue_240
  by (simp add: fsub_def fdiv_def fadd_def)

lemma rgbToHsl_pale_blue:
  assumes "15 / 16 \<le> p" "p \<le> 31 / 32"
  shows "rgbToHsl p p 1 = (240, 1, fdiv (fadd 1 p) 2)"
    and "31 / 32 \<le> fdiv (fadd 1 p) 2 \<and> fdiv (fadd 1 p) 2 \<le> 63 / 64"
proof -
  from assms have mx: "max p (max p 1) = 1" and mn: "min p (min p 1) = p" and ne: "1 \<noteq> p"
    by simp_all
  have "31 / 16 \<le> fl (1 + p) \<and> fl (1 + p) \<le> 63 / 32"
    using assms by (intro fl_between) (simp_all add: fl_pale)
  then have "31 / 32 \<le> fl (1 + p) / 2 \<and> fl (1 + p) / 2 \<le> 63 / 64" by simp
  then have "31 / 32 \<le> fl (fl (1 + p) / 2) \<and> fl (fl (1 + p) / 2) \<le> 63 / 64"
    by (intro fl_between) (simp_all add: fl_pale)
  then show l: "31 / 32 \<le> fdiv (fadd 1 p) 2 \<and> fdiv (fadd 1 p) 2 \<le> 63 / 64"
    by (simp only: fdiv_def fadd_def)
  then have light: "fdiv (fadd 1 p) 2 > 0.5" by simp
  have "1 / 32 \<le> fl (1 - p) \<and> fl (1 - p) \<le> 1 / 16"
    using assms by (intro fl_between) (simp_all add: fl_pale)
  then have d: "fsub 1 p \<noteq> 0" by (simp add: fsub_def)
  have s: "fdiv (fsub 1 p) (fsub (fsub 2 1) p) = 1"
    using d by (simp add: fdiv_def fsub_def)
  have h: "fmul (fdiv (fadd (fdiv (fsub p p) (fsub 1 p)) 4) 6) 360 = 240"
    using hue_240 by (simp add: fsub_def fdiv_def fadd_def)
  show "rgbToHsl p p 1 = (240, 1, fdiv (fadd 1 p) 2)"
    unfolding rgbToHsl_def Let_def mx mn using ne light s h by simp
qed

lemma lightnessToShade_pale:
  assumes "31 / 32 \<le> l" "l \<le> 63 / 64"
  shows "lightnessToShade l = 50"
proof -
  have "1 / 64 \<le> fl (1 - l) \<and> fl (1 - l) \<le> 1 / 32"
    using assms by (intro fl_between) (simp_all add: fl_pale)
  then have "5 / 32 \<le> fl (1 - l) * 10 \<and> fl (1 - l) * 10 \<le> 5 / 16" by simp
  then have "5 / 32 \<le> fl (fl (1 - l) * 10) \<and> fl (fl (1 - l) * 10) \<le> 5 / 16"
    by (intro fl_between) (simp_all add: fl_pale)
  then have "\<lfloor>fl (fl (1 - l) * 10) + 1 / 2\<rfloor> = 0"
    by (intro floor_unique) simp_all
  then show ?thesis
    by (simp add: lightnessToShade_def shades_def fsub_def fmul_def Math_round_def)
qed

lemma candidateName_pale_blue:
  "candidateName ''material'' x (sample (fdiv 243 255) (fdiv 243 255) 1 src) = ''color-primary-50''"
proof -
  note p = channel_243
  note hsl = rgbToHsl_pale_blue [of "fdiv 243 255"]
  have hsl1: "rgbToHsl (fdiv 243 255) (fdiv 243 255) 1 = (240, 1, fdiv (fadd 1 (fdiv 243 255)) 2)"
    using p by (intro hsl(1)) simp_all
  have l: "31 / 32 \<le> fdiv (fadd 1 (fdiv 243 255)) 2 \<and> fdiv (fadd 1 (fdiv 243 255)) 2 \<le> 63 / 64"
    using p by (intro hsl(2)) simp_all
  have role: "detectColorRole (fdiv 243 255) (fdiv 243 255) 1 = blue"
    using detectColorRole_of_hsl [OF hsl1] not_gray_at_one by simp
  have shade: "lightnessToShade (fdiv (fadd 1 (fdiv 243 255)) 2) = 50"
    using l by (intro lightnessToShade_pale) simp_all
  show ?thesis
    by (simp add: candidateName_def hsl1 role shade number_toString_decimal)
qed

lemma earlier_same_names:
  assumes "i < length cs"
  shows "earlier_same pattern customPrefix cs i =
     length (filter (\<lambda>n. n = map (candidateName pattern customPrefix) cs ! i)
               (take i (map (candidateName pattern customPrefix) cs)))"
  using assms by (simp add: earlier_same_def take_map filter_map o_def)

lemma material_collision_candidates:
  "map (candidateName ''material'' x) material_collision_batch =
     replicate 51 ''color-primary'' @ [''color-primary-50'']"
proof -
  have "candidateName ''material'' x (sample 0 (fdiv (real k) 255) 1 Fill) = ''color-primary''"
    if "k < 51" for k
    using that channel_small [of k] by (intro candidateName_blue_green) simp_all
  then have "map (\<lambda>k. candidateName ''material'' x (sample 0 (fdiv (real k) 255) 1 Fill)) [0..<51] =
      map (\<lambda>k. ''color-primary'') [0..<51]"
    by (intro map_cong) simp_all
  then show ?thesis
    by (simp add: material_collision_batch_def candidateName_pale_blue o_def map_replicate_const)
qed

lemma three_blues_length: "length three_blues = 3"
  by (simp add: three_blues_def)

lemma three_blues_names:
  "tokenName (assignTokenNames three_blues ''tailwind'' x ! 0) = ''blue-500''"
  "tokenName (assignTokenNames three_blues ''tailwind'' x ! 1) = ''blue-500-1''"
  "tokenName (assignTokenNames three_blues ''tailwind'' x ! 2) = ''blue-500-2''"
  using channel_51
  by (simp_all add: assignTokenNames_def three_blues_def candidateName_blue_green
      candidateName_blue_red Let_def number_toString_decimal)

text \<open>
  Claim C2. Within one call, the colour at position \<open>i\<close> whose candidate name is \<open>N\<close>
  keeps \<open>N\<close> when no earlier colour has that candidate name, and receives \<open>N-k\<close> when
  exactly \<open>k \<ge> 1\<close> earlier colours have it: the first keeps its name and the
  \<open>(k+1)\<close>-th is suffixed with \<open>k\<close>. The result depends on the candidate names of the
  colours up to \<open>i\<close> only: a suffixed name is never looked up in the registry, and the
  registry starts empty in every call.
\<close>

theorem assignTokenNames_suffixes:
  "i < length cs \<Longrightarrow>
     tokenName (assignTokenNames cs pattern customPrefix ! i) =
       (let name = candidateName pattern customPrefix (cs ! i);
            k = length (filter (\<lambda>c. candidateName pattern customPrefix c = name) (take i cs))
        in if k = 0 then name else name @ ''-'' @ number_toString 10 (int k))"
  using nameColors_nth_name [of i cs pattern customPrefix Map.empty]
  by (simp add: assignTokenNames_def earlier_same_def Let_def)

theorem assignTokenNames_suffixes_witness:
  "(2::nat) < length three_blues \<and>
   candidateName ''tailwind'' [] (three_blues ! 2) = ''blue-500'' \<and>
   length (filter (\<lambda>c. candidateName ''tailwind'' [] c = ''blue-500'') (take 2 three_blues)) = 2 \<and>
   tokenName (assignTokenNames three_blues ''tailwind'' [] ! 2) = ''blue-500-2''"
proof -
  have len: "(2::nat) < length three_blues"
    by (simp add: three_blues_length)
  have cand: "candidateName ''tailwind'' [] (three_blues ! 2) = ''blue-500''"
    using channel_51 by (simp add: three_blues_def candidateName_blue_red)
  have count:
    "length (filter (\<lambda>c. candidateName ''tailwind'' [] c = ''blue-500'') (take 2 three_blues)) = 2"
    using channel_51 by (simp add: three_blues_def candidateName_blue_green)
  from assignTokenNames_suffixes [OF len, of "''tailwind''" "[]"]
  have "tokenName (assignTokenNames three_blues ''tailwind'' [] ! 2) =
      ''blue-500'' @ ''-'' @ number_toString 10 2"
    unfolding cand Let_def count by simp
  with len cand count show ?thesis
    by (simp add: number_toString_decimal)
qed

text \<open>
  Claim C9. The result of \<open>assignTokenNames\<close> has the length of its input, and the sample
  at each position is the input's sample at that position with only \<open>tokenName\<close> replaced:
  \<open>hex\<close>, \<open>r\<close>, \<open>g\<close>, \<open>b\<close>, \<open>a\<close> and \<open>source\<close> are those of the input. The operation is a
  function of its three arguments; its registry is the empty map at the start of each call.
\<close>

theorem assignTokenNames_frame:
  "length (assignTokenNames cs pattern customPrefix) = length cs \<and>
   (\<forall>i<length cs.
      assignTokenNames cs pattern customPrefix ! i =
        (cs ! i)\<lparr>tokenName := tokenName (assignTokenNames cs pattern customPrefix ! i)\<rparr>)"
  using nameColors_nth_frame [of _ cs pattern customPrefix Map.empty]
  by (simp add: assignTokenNames_def)

theorem assignTokenNames_frame_witness:
  "length (assignTokenNames three_blues ''tailwind'' []) = 3 \<and>
   (1::nat) < length three_blues \<and>
   assignTokenNames three_blues ''tailwind'' [] ! 1 =
     (three_blues ! 1)\<lparr>tokenName := ''blue-500-1''\<rparr>"
proof -
  have len: "(1::nat) < length three_blues"
    by (simp add: three_blues_length)
  from assignTokenNames_frame [of three_blues "''tailwind''" "[]"] len
  have "length (assignTokenNames three_blues ''tailwind'' []) = length three_blues"
    and "assignTokenNames three_blues ''tailwind'' [] ! 1 =
        (three_blues ! 1)\<lparr>tokenName := tokenName (assignTokenNames three_blues ''tailwind'' [] ! 1)\<rparr>"
    by blast+
  then have "length (assignTokenNames three_blues ''tailwind'' []) = 3"
    and "assignTokenNames three_blues ''tailwind'' [] ! 1 =
        (three_blues ! 1)\<lparr>tokenName := ''blue-500-1''\<rparr>"
    by (simp_all only: three_blues_names three_blues_length)
  with len show ?thesis by blast
qed

text \<open>
  Claim C8. For a pattern that is none of \<^verbatim>\<open>material\<close>, \<^verbatim>\<open>tailwind\<close>, \<^verbatim>\<open>antd\<close>, \<^verbatim>\<open>wcag\<close>,
  \<^verbatim>\<open>custom\<close>, no branch of the switch matches and the candidate name of every colour is the
  empty string; after collision handling the first colour is named by the empty string
  and the colour at position \<open>i > 0\<close> by \<open>-i\<close>.
\<close>

theorem unknown_pattern_empty_name:
  assumes "pattern \<notin> {''material'', ''tailwind'', ''antd'', ''wcag'', ''custom''}"
  shows "candidateName pattern customPrefix c = [] \<and>
    (\<forall>i<length cs. tokenName (assignTokenNames cs pattern customPrefix ! i) =
        (if i = 0 then [] else ''-'' @ number_toString 10 (int i)))"
proof -
  have "tokenName (assignTokenNames cs pattern customPrefix ! i) =
        (if i = 0 then [] else ''-'' @ number_toString 10 (int i))" if "i < length cs" for i
    using nameColors_nth_name [OF that, of pattern customPrefix Map.empty] that
    by (simp add: assignTokenNames_def earlier_same_def Let_def candidateName_unknown [OF assms])
  then show ?thesis
    using candidateName_unknown [OF assms] by simp
qed

theorem unknown_pattern_empty_name_witness:
  "''pastel'' \<notin> {''material'', ''tailwind'', ''antd'', ''wcag'', ''custom''} \<and>
   candidateName ''pastel'' [] (sample 0 0 1 Fill) = [] \<and>
   (0::nat) < length three_blues \<and> (2::nat) < length three_blues \<and>
   tokenName (assignTokenNames three_blues ''pastel'' [] ! 0) = [] \<and>
   tokenName (assignTokenNames three_blues ''pastel'' [] ! 2) = ''-2''"
proof -
  have unknown: "''pastel'' \<notin> {''material'', ''tailwind'', ''antd'', ''wcag'', ''custom''}"
    by simp
  have len: "(0::nat) < length three_blues" "(2::nat) < length three_blues"
    by (simp_all add: three_blues_length)
  from unknown_pattern_empty_name [OF unknown, of "[]" "sample 0 0 1 Fill" three_blues] len
  have "candidateName ''pastel'' [] (sample 0 0 1 Fill) = []"
    and "tokenName (assignTokenNames three_blues ''pastel'' [] ! 0) = []"
    and "tokenName (assignTokenNames three_blues ''pastel'' [] ! 2) = ''-'' @ number_toString 10 2"
    by simp_all
  with unknown len show ?thesis
    by (simp add: number_toString_decimal)
qed

text \<open>
  The channel the host computes for \<^verbatim>\<open>k / 255\<close> is rendered as the two hex digits of \<open>k\<close>:
  the quotient and the product by 255 are each off by a rounding error, far less than the
  quarter that \<^verbatim>\<open>Math.round\<close> forgives.
\<close>

lemma channel_round:
  assumes "k < 255"
  shows "Math_round (fmul (fdiv (real k) 255) 255) = int k"
proof -
  define y where "y = fl (real k / 255)"
  from assms have "\<bar>real k / 255\<bar> < 1" by simp
  from ulp_below_one [OF this] fl_error [of "real k / 255"]
  have "\<bar>y - real k / 255\<bar> \<le> 2 powi (- 53) / 2"
    unfolding y_def by linarith
  then have "\<bar>y - real k / 255\<bar> \<le> 1 / 1020" by simp
  then have "- (1 / 1020) \<le> y - real k / 255" "y - real k / 255 \<le> 1 / 1020"
    by linarith+
  moreover have "y * 255 - real k = (y - real k / 255) * 255" by simp
  ultimately have near: "real k - 1 / 4 \<le> y * 255 \<and> y * 255 \<le> real k + 1 / 4"
    by linarith
  have "\<bar>4 * int k - 1\<bar> < 2 ^ 53" "\<bar>4 * int k + 1\<bar> < 2 ^ 53"
    using assms by simp_all
  from fl_exact [OF this(1), of "- 2"] fl_exact [OF this(2), of "- 2"]
  have ends: "fl (real k - 1 / 4) = real k - 1 / 4" "fl (real k + 1 / 4) = real k + 1 / 4"
    by (simp_all add: field_simps)
  from near ends have "real k - 1 / 4 \<le> fl (y * 255) \<and> fl (y * 255) \<le> real k + 1 / 4"
    by (intro fl_between) simp_all
  then have "\<lfloor>fl (y * 255) + 1 / 2\<rfloor> = int k"
    by (intro floor_unique) simp_all
  then show ?thesis
    by (simp add: Math_round_def fmul_def fdiv_def y_def)
qed

lemma toHex_byte:
  assumes "k < 255"
  shows "toHex (fdiv (real k) 255) = [digit_char (k div 16), digit_char (k mod 16)]"
proof -
  have str: "toHex (fdiv (real k) 255) = padStart2 (digits_of 16 k)"
    by (simp add: toHex_def channel_round [OF assms] number_toString_def)
  show ?thesis
  proof (cases "k < 16")
    case True
    then show ?thesis
      by (simp add: str digits_of_small padStart2_def digit_char_def)
  next
    case False
    with assms have "k div 16 < 16" by simp
    with False show ?thesis
      by (simp add: str digits_of_step digits_of_small padStart2_def)
  qed
qed

lemma upper_digit:
  assumes "d < 16"
  shows "upper_char (digit_char d) = ''0123456789ABCDEF'' ! d"
proof -
  have up: "map upper_char ''0123456789abcdef'' = ''0123456789ABCDEF''"
    by (simp add: upper_char_def)
  have "d < length ''0123456789abcdef''"
    using assms by simp
  then have "map upper_char ''0123456789abcdef'' ! d = upper_char (''0123456789abcdef'' ! d)"
    by (rule nth_map)
  then show ?thesis
    by (simp only: up digit_char_def)
qed

lemma hex_digits_distinct: "distinct ''0123456789ABCDEF''"
  by simp

lemma hex_digit_inj:
  assumes "d < 16" "e < 16" "''0123456789ABCDEF'' ! d = ''0123456789ABCDEF'' ! e"
  shows "d = e"
proof -
  have "d < length ''0123456789ABCDEF''" "e < length ''0123456789ABCDEF''"
    using assms(1,2) by simp_all
  with hex_digits_distinct assms(3) show ?thesis
    by (simp only: nth_eq_iff_index_eq)
qed

lemma hex_blue_ramp:
  assumes "k < 255"
  shows "rgbToHex 0 (fdiv (real k) 255) 1 =
     ''#00'' @ [''0123456789ABCDEF'' ! (k div 16), ''0123456789ABCDEF'' ! (k mod 16)] @ ''FF''"
proof -
  from assms have "k div 16 < 16" "k mod 16 < 16" by simp_all
  then show ?thesis
    by (simp add: rgbToHex_def toHex_byte [OF assms] toHex_zero toHex_one toUpperCase_def
        upper_digit) (simp add: upper_char_def)
qed

lemma hex_blue_ramp_inj:
  assumes "k < 255" "m < 255"
    and "rgbToHex 0 (fdiv (real k) 255) 1 = rgbToHex 0 (fdiv (real m) 255) 1"
  shows "k = m"
proof -
  from assms have digits:
    "''0123456789ABCDEF'' ! (k div 16) = ''0123456789ABCDEF'' ! (m div 16)"
    "''0123456789ABCDEF'' ! (k mod 16) = ''0123456789ABCDEF'' ! (m mod 16)"
    by (simp_all only: hex_blue_ramp append_Cons append_Nil list.inject)
  from assms(1,2) have "k div 16 < 16" "m div 16 < 16" "k mod 16 < 16" "m mod 16 < 16"
    by simp_all
  with digits have "k div 16 = m div 16" "k mod 16 = m mod 16"
    by (auto intro: hex_digit_inj)
  then show ?thesis
    by (metis div_mult_mod_eq)
qed

lemma toHex_243: "toHex (fdiv 243 255) = ''f3''"
  using toHex_byte [of 243] by (simp add: digit_char_def)

lemma hex_pale_blue: "rgbToHex (fdiv 243 255) (fdiv 243 255) 1 = ''#F3F3FF''"
  by (simp add: rgbToHex_def toHex_243 toHex_one toUpperCase_def upper_char_def)

lemma hex_blue_ramp_not_pale:
  assumes "k < 51"
  shows "rgbToHex 0 (fdiv (real k) 255) 1 \<noteq> ''#F3F3FF''"
proof
  assume eq: "rgbToHex 0 (fdiv (real k) 255) 1 = ''#F3F3FF''"
  from assms have "k < 255" by simp
  from eq [unfolded hex_blue_ramp [OF this]] show False by simp
qed

lemma material_collision_distinct: "distinct (map hex material_collision_batch)"
proof -
  have inj: "inj_on (\<lambda>k. rgbToHex 0 (fdiv (real k) 255) 1) {0..<51}"
    by (rule inj_onI) (auto intro: hex_blue_ramp_inj)
  have ramp: "distinct (map (\<lambda>k. rgbToHex 0 (fdiv (real k) 255) 1) [0..<51])"
    using inj by (simp add: distinct_map)
  have pale: "rgbToHex (fdiv 243 255) (fdiv 243 255) 1 \<notin>
      (\<lambda>k. rgbToHex 0 (fdiv (real k) 255) 1) ` {0..<51}"
  proof
    assume "rgbToHex (fdiv 243 255) (fdiv 243 255) 1 \<in>
        (\<lambda>k. rgbToHex 0 (fdiv (real k) 255) 1) ` {0..<51}"
    then obtain k where "k < 51" "rgbToHex 0 (fdiv (real k) 255) 1 = ''#F3F3FF''"
      unfolding hex_pale_blue by auto
    with hex_blue_ramp_not_pale show False by blast
  qed
  show ?thesis
    using ramp pale by (simp add: material_collision_batch_def o_def)
qed

text \<open>Under each of the five patterns every assigned name is non-empty.\<close>

lemma candidateName_known_nonempty:
  assumes "pattern \<in> {''material'', ''tailwind'', ''antd'', ''wcag'', ''custom''}"
  shows "candidateName pattern customPrefix c \<noteq> []"
  using assms by (auto simp: candidateName_def Let_def split: prod.splits)

lemma nameColors_nonempty:
  assumes "pattern \<in> {''material'', ''tailwind'', ''antd'', ''wcag'', ''custom''}"
    and "c \<in> set (nameColors pattern customPrefix roleCount cs)"
  shows "tokenName c \<noteq> []"
  using assms(2)
proof (induction cs arbitrary: roleCount)
  case Nil
  then show ?case by simp
next
  case (Cons c0 cs)
  let ?name = "candidateName pattern customPrefix c0"
  show ?case
  proof (cases "roleCount ?name")
    case None
    with Cons.prems have "tokenName c = ?name \<or>
        c \<in> set (nameColors pattern customPrefix (roleCount(?name \<mapsto> 0)) cs)"
      by (auto simp: Let_def)
    then show ?thesis
      using candidateName_known_nonempty [OF assms(1)] Cons.IH by metis
  next
    case (Some n)
    with Cons.prems have "tokenName c = ?name @ ''-'' @ number_toString 10 (int (n + 1)) \<or>
        c \<in> set (nameColors pattern customPrefix (roleCount(?name \<mapsto> n + 1)) cs)"
      by (auto simp: Let_def)
    then show ?thesis
      using Cons.IH by auto
  qed
qed

lemma known_pattern_names_nonempty:
  assumes "pattern \<in> {''material'', ''tailwind'', ''antd'', ''wcag'', ''custom''}"
  shows "\<forall>c\<in>set (assignTokenNames cs pattern customPrefix). tokenName c \<noteq> []"
  using nameColors_nonempty [OF assms] by (auto simp: assignTokenNames_def)

text \<open>
  Claim C1, evaluated at an input where it fails. The fifty-two samples of
  \<open>material_collision_batch\<close> have pairwise distinct hex values. Under the pattern
  \<^verbatim>\<open>material\<close> the first fifty-one have the candidate name \<^verbatim>\<open>color-primary\<close>, so the
  fifty-first is named \<^verbatim>\<open>color-primary-50\<close>; the last has the candidate name
  \<^verbatim>\<open>color-primary-50\<close>, which is not in the registry, and keeps it. Two samples of the
  output carry the same token name.
\<close>

theorem material_names_collide:
  "distinct (map hex material_collision_batch) \<and>
   tokenName (assignTokenNames material_collision_batch ''material'' [] ! 50) = ''color-primary-50'' \<and>
   tokenName (assignTokenNames material_collision_batch ''material'' [] ! 51) = ''color-primary-50''"
proof -
  have len: "length material_collision_batch = 52"
    by (simp add: material_collision_batch_def)
  have e50: "earlier_same ''material'' [] material_collision_batch 50 = 50"
    by (simp add: earlier_same_names len material_collision_candidates nth_append)
  have e51: "earlier_same ''material'' [] material_collision_batch 51 = 0"
    by (simp add: earlier_same_names len material_collision_candidates nth_append)
  have c50: "candidateName ''material'' [] (material_collision_batch ! 50) = ''color-primary''"
    using nth_map [of 50 material_collision_batch "candidateName ''material'' []"]
    by (simp add: len material_collision_candidates nth_append)
  have c51: "candidateName ''material'' [] (material_collision_batch ! 51) = ''color-primary-50''"
    using nth_map [of 51 material_collision_batch "candidateName ''material'' []"]
    by (simp add: len material_collision_candidates nth_append)
  show ?thesis
    using material_collision_distinct
      nameColors_nth_name [of 50 material_collision_batch "''material''" "[]" Map.empty]
      nameColors_nth_name [of 51 material_collision_batch "''material''" "[]" Map.empty]
    by (simp add: assignTokenNames_def len e50 e51 c50 c51 Let_def number_toString_decimal)
qed

subsection \<open>The tree extractor\<close>

lemma extractPaint_source:
  "extractPaint p src = Some c \<Longrightarrow> source c = src"
  by (auto simp: extractPaint_def split: if_splits prod.splits)

lemma extractPaint_hex_any_source:
  "extractPaint p src = Some c \<Longrightarrow> \<exists>c'. extractPaint p src' = Some c' \<and> hex c' = hex c"
  by (auto simp: extractPaint_def split: if_splits prod.splits)

lemma extractPaint_solid_visible:
  "paint_type p = ''SOLID'' \<Longrightarrow> visible p \<noteq> Some False \<Longrightarrow> \<exists>c. extractPaint p src = Some c"
  by (auto simp: extractPaint_def split: prod.splits)

lemma extractPaints_simps:
  "extractPaints [] src = []"
  "extractPaints (p # ps) src =
     (case extractPaint p src of None \<Rightarrow> extractPaints ps src
      | Some c \<Rightarrow> c # extractPaints ps src)"
  by (simp_all add: extractPaints_def split: option.splits)

lemma extractPaints_mem:
  "c \<in> set (extractPaints ps src) \<longleftrightarrow> (\<exists>p\<in>set ps. extractPaint p src = Some c)"
  by (induction ps) (auto simp: extractPaints_simps split: option.splits)

lemma extractPaints_source:
  "c \<in> set (extractPaints ps src) \<Longrightarrow> source c = src"
  by (auto simp: extractPaints_mem dest: extractPaint_source)

lemma extractPaints_hexes:
  "hex ` set (extractPaints ps src) = hex ` set (extractPaints ps src')"
proof -
  have "hex ` set (extractPaints ps s1) \<subseteq> hex ` set (extractPaints ps s2)" for s1 s2
  proof
    fix x assume "x \<in> hex ` set (extractPaints ps s1)"
    then obtain c p where "p \<in> set ps" "extractPaint p s1 = Some c" "x = hex c"
      by (auto simp: extractPaints_mem)
    moreover from this extractPaint_hex_any_source [of p s1 c s2]
    obtain c' where "extractPaint p s2 = Some c'" "hex c' = hex c" by blast
    ultimately have "c' \<in> set (extractPaints ps s2)" "x = hex c'"
      by (auto simp: extractPaints_mem)
    then show "x \<in> hex ` set (extractPaints ps s2)" by blast
  qed
  then show ?thesis by blast
qed

lemma text_preceded_append:
  "text_preceded seen (xs @ ys) \<longleftrightarrow>
     text_preceded seen xs \<and> text_preceded (seen \<union> hex ` set xs) ys"
proof (induction xs arbitrary: seen)
  case Nil
  show ?case by simp
next
  case (Cons x xs)
  have "insert (hex x) seen \<union> hex ` set xs = seen \<union> hex ` set (x # xs)" by auto
  with Cons [of "insert (hex x) seen"] show ?case by simp
qed

lemma text_preceded_mono:
  "text_preceded seen xs \<Longrightarrow> seen \<subseteq> seen' \<Longrightarrow> text_preceded seen' xs"
proof (induction xs arbitrary: seen seen')
  case Nil
  show ?case by simp
next
  case (Cons x xs)
  from Cons.prems have "text_preceded (insert (hex x) seen) xs" by simp
  moreover from Cons.prems have "insert (hex x) seen \<subseteq> insert (hex x) seen'" by auto
  ultimately have "text_preceded (insert (hex x) seen') xs" by (rule Cons.IH)
  with Cons.prems show ?case by auto
qed

lemma text_preceded_no_text:
  "\<forall>c\<in>set xs. source c \<noteq> Text \<Longrightarrow> text_preceded seen xs"
  by (induction xs arbitrary: seen) auto

lemma text_preceded_covered:
  "hex ` set xs \<subseteq> seen \<Longrightarrow> text_preceded seen xs"
  by (induction xs arbitrary: seen) (auto simp: insert_absorb)

lemma text_preceded_concat:
  "(\<And>xs seen. xs \<in> set xss \<Longrightarrow> text_preceded seen xs) \<Longrightarrow> text_preceded seen (concat xss)"
  by (induction xss arbitrary: seen) (auto simp: text_preceded_append)

lemma extractColorsFromNode_text_preceded:
  "text_preceded seen (extractColorsFromNode n)"
proof (induction n arbitrary: seen rule: extractColorsFromNode.induct)
  case (1 ty fs ss cs)
  have fillp: "text_preceded sn (extractPaints ps Fill)" for sn ps
    by (rule text_preceded_no_text) (auto dest: extractPaints_source)
  have strokep: "text_preceded sn (extractPaints ps Stroke)" for sn ps
    by (rule text_preceded_no_text) (auto dest: extractPaints_source)
  have textp: "text_preceded (sn \<union> hex ` set (extractPaints ps Fill)) (extractPaints ps Text)"
    for sn ps
    by (rule text_preceded_covered) (use extractPaints_hexes [of ps Text Fill] in auto)
  have kids: "text_preceded sn (concat (map extractColorsFromNode nodes))"
    if "cs = Some nodes" for sn nodes
    by (rule text_preceded_concat) (use that "1.IH" in auto)
  let ?F = "case fs of None \<Rightarrow> [] | Some paints \<Rightarrow> extractPaints paints Fill"
  let ?S = "case ss of None \<Rightarrow> [] | Some paints \<Rightarrow> extractPaints paints Stroke"
  let ?T = "if ty = ''TEXT''
            then (case fs of None \<Rightarrow> [] | Some paints \<Rightarrow> extractPaints paints Text) else []"
  let ?K = "case cs of None \<Rightarrow> [] | Some nodes \<Rightarrow> concat (map extractColorsFromNode nodes)"
  have F: "text_preceded sn ?F" for sn
    by (cases fs) (simp_all add: fillp)
  have S: "text_preceded sn ?S" for sn
    by (cases ss) (simp_all add: strokep)
  have T: "text_preceded (sn \<union> hex ` set ?F) ?T" for sn
    by (cases fs) (simp_all add: textp)
  have K: "text_preceded sn ?K" for sn
    by (cases cs) (simp_all add: kids)
  have T': "text_preceded (seen \<union> hex ` set ?F \<union> hex ` set ?S) ?T"
    by (rule text_preceded_mono [OF T [of seen]]) auto
  have F': "text_preceded seen ?F" by (rule F)
  have S': "text_preceded (seen \<union> hex ` set ?F) ?S" by (rule S)
  have K': "text_preceded (seen \<union> hex ` set ?F \<union> hex ` set ?S \<union> hex ` set ?T) ?K" by (rule K)
  have "text_preceded seen (?F @ ?S @ ?T @ ?K)"
    unfolding text_preceded_append using F' S' T' K' by blast
  then show ?case by simp
qed

lemma filter_unseen_no_text:
  "text_preceded seen xs \<Longrightarrow> c \<in> set (filter_unseen seen xs) \<Longrightarrow> source c \<noteq> Text"
  by (induction xs arbitrary: seen) (auto simp: insert_absorb split: if_splits)

lemma dedup_extraction_no_text:
  "c \<in> set (deduplicateColors (concat (map extractColorsFromNode ns))) \<Longrightarrow> source c \<noteq> Text"
  unfolding deduplicateColors_def
  by (rule filter_unseen_no_text [rotated, of _ "{}"], assumption)
    (rule text_preceded_concat, auto simp: extractColorsFromNode_text_preceded)

lemma filter_unseen_hexes:
  "hex ` set (filter_unseen seen xs) = hex ` set xs - seen"
  by (induction xs arbitrary: seen) auto

lemma dedup_survivor_in_first_block:
  assumes "c \<in> set (deduplicateColors (before @ xs @ rest))"
    and "hex c \<in> hex ` set xs" "hex c \<notin> hex ` set before"
  shows "c \<in> set xs"
proof -
  have split: "deduplicateColors (before @ xs @ rest) =
      filter_unseen {} before @ filter_unseen (hex ` set before) xs @
      filter_unseen (hex ` set before \<union> hex ` set xs) rest"
    by (simp add: deduplicateColors_def filter_unseen_append)
  have "c \<notin> set (filter_unseen {} before)"
    using assms(3) filter_unseen_subset [of "{}" before] by auto
  moreover have "c \<notin> set (filter_unseen (hex ` set before \<union> hex ` set xs) rest)"
    using assms(2) filter_unseen_hex_fresh [of c "hex ` set before \<union> hex ` set xs" rest] by auto
  ultimately have "c \<in> set (filter_unseen (hex ` set before) xs)"
    using assms(1) unfolding split by auto
  then show ?thesis
    using filter_unseen_subset [of "hex ` set before" xs] by auto
qed

lemma text_node_output:
  assumes "node_type n = ''TEXT''" "fills n = Some ps"
  shows "\<exists>mid rest. extractColorsFromNode n =
           extractPaints ps Fill @ mid @ extractPaints ps Text @ rest"
  using assms by (cases n) auto

lemma red_text_node_output:
  "extractColorsFromNode red_text_node = [sample 1 0 0 Fill, sample 1 0 0 Text]"
  by (simp add: red_text_node_def red_paint_def extractPaints_simps extractPaint_def sample_def)

lemma red_text_node_dedup:
  "deduplicateColors (extractColorsFromNode red_text_node) = [sample 1 0 0 Fill]"
  by (simp add: red_text_node_output deduplicateColors_def)

text \<open>
  Claim C10. Let \<open>n\<close> be a node of type \<^verbatim>\<open>TEXT\<close> whose \<open>fills\<close> is a list, and \<open>p\<close> a solid
  paint of that list whose visibility is not explicitly false. The extractor's output for
  \<open>n\<close> holds the sample of \<open>p\<close> with source \<open>Fill\<close> at a position \<open>i\<close> and the sample of \<open>p\<close>
  with source \<open>Text\<close> at a later position \<open>j\<close>, both with the same hex value. After
  deduplication a sample with that hex value survives, and in the deduplication of any
  sequence that contains the output of \<open>n\<close> the survivor with that hex value has source
  \<open>Fill\<close> unless the hex value occurs before the output of \<open>n\<close>. No sample that survives
  the deduplication of the extractor's output for a list of nodes has source \<open>Text\<close>.
\<close>

theorem text_fill_emitted_twice:
  assumes "node_type n = ''TEXT''" "fills n = Some ps" "p \<in> set ps"
    and "paint_type p = ''SOLID''" "visible p \<noteq> Some False"
  shows "(\<exists>cF cT i j.
            extractPaint p Fill = Some cF \<and> extractPaint p Text = Some cT \<and>
            source cF = Fill \<and> source cT = Text \<and> hex cT = hex cF \<and>
            i < j \<and> j < length (extractColorsFromNode n) \<and>
            extractColorsFromNode n ! i = cF \<and> extractColorsFromNode n ! j = cT \<and>
            (\<exists>c\<in>set (deduplicateColors (extractColorsFromNode n)). hex c = hex cF) \<and>
            (\<forall>before after. \<forall>c\<in>set (deduplicateColors (before @ extractColorsFromNode n @ after)).
               hex c = hex cF \<longrightarrow> hex cF \<notin> hex ` set before \<longrightarrow> source c = Fill)) \<and>
         (\<forall>ns. \<forall>c\<in>set (deduplicateColors (concat (map extractColorsFromNode ns))).
            source c \<noteq> Text)"
proof -
  obtain cF where cF: "extractPaint p Fill = Some cF"
    using extractPaint_solid_visible [OF assms(4,5)] by blast
  obtain cT where cT: "extractPaint p Text = Some cT" "hex cT = hex cF"
    using extractPaint_hex_any_source [OF cF] by blast
  obtain mid rest where out:
    "extractColorsFromNode n = extractPaints ps Fill @ mid @ extractPaints ps Text @ rest"
    using text_node_output [OF assms(1,2)] by blast
  have inF: "cF \<in> set (extractPaints ps Fill)" and inT: "cT \<in> set (extractPaints ps Text)"
    using assms(3) cF cT(1) by (auto simp: extractPaints_mem)
  from inF obtain i where i: "i < length (extractPaints ps Fill)" "extractPaints ps Fill ! i = cF"
    by (auto simp: in_set_conv_nth)
  from inT obtain k where k: "k < length (extractPaints ps Text)" "extractPaints ps Text ! k = cT"
    by (auto simp: in_set_conv_nth)
  define j where "j = length (extractPaints ps Fill) + length mid + k"
  have ij: "i < j" "j < length (extractColorsFromNode n)"
    using i(1) k(1) by (simp_all add: j_def out)
  have nth_i: "extractColorsFromNode n ! i = cF"
    using i by (simp add: out nth_append)
  have nth_j: "extractColorsFromNode n ! j = cT"
    using k by (simp add: out nth_append j_def)
  have src: "source cF = Fill" "source cT = Text"
    using extractPaint_source [OF cF] extractPaint_source [OF cT(1)] by simp_all
  have "cF \<in> set (extractColorsFromNode n)"
    using ij nth_i by (metis less_trans nth_mem)
  moreover have "hex ` set (deduplicateColors xs) = hex ` set xs" for xs
    by (simp add: deduplicateColors_def filter_unseen_hexes)
  ultimately have ex: "\<exists>c\<in>set (deduplicateColors (extractColorsFromNode n)). hex c = hex cF"
    by (metis imageE imageI)
  have surv: "source c = Fill"
    if "c \<in> set (deduplicateColors (before @ extractColorsFromNode n @ after))"
      "hex c = hex cF" "hex cF \<notin> hex ` set before" for before after c
  proof -
    have 1: "c \<in> set (deduplicateColors
        (before @ extractPaints ps Fill @ (mid @ extractPaints ps Text @ rest @ after)))"
      using that(1) by (simp only: out append_assoc)
    have 2: "hex c \<in> hex ` set (extractPaints ps Fill)"
      unfolding that(2) using inF by (rule imageI)
    have 3: "hex c \<notin> hex ` set before"
      unfolding that(2) by (rule that(3))
    from 1 2 3 have "c \<in> set (extractPaints ps Fill)"
      by (rule dedup_survivor_in_first_block)
    then show ?thesis by (rule extractPaints_source)
  qed
  have surv': "\<forall>before after.
      \<forall>c\<in>set (deduplicateColors (before @ extractColorsFromNode n @ after)).
        hex c = hex cF \<longrightarrow> hex cF \<notin> hex ` set before \<longrightarrow> source c = Fill"
    using surv by blast
  have never: "\<forall>ns. \<forall>c\<in>set (deduplicateColors (concat (map extractColorsFromNode ns))).
      source c \<noteq> Text"
    using dedup_extraction_no_text by blast
  have first: "\<exists>cF cT i j.
            extractPaint p Fill = Some cF \<and> extractPaint p Text = Some cT \<and>
            source cF = Fill \<and> source cT = Text \<and> hex cT = hex cF \<and>
            i < j \<and> j < length (extractColorsFromNode n) \<and>
            extractColorsFromNode n ! i = cF \<and> extractColorsFromNode n ! j = cT \<and>
            (\<exists>c\<in>set (deduplicateColors (extractColorsFromNode n)). hex c = hex cF) \<and>
            (\<forall>before after. \<forall>c\<in>set (deduplicateColors (before @ extractColorsFromNode n @ after)).
               hex c = hex cF \<longrightarrow> hex cF \<notin> hex ` set before \<longrightarrow> source c = Fill)"
    apply (rule exI [of _ cF], rule exI [of _ cT], rule exI [of _ i], rule exI [of _ j])
    using cF cT ij nth_i nth_j src ex surv' apply (intro conjI)
              apply assumption+
    done
  from first never show ?thesis by (rule conjI)
qed

theorem text_fill_emitted_twice_witness:
  "node_type red_text_node = ''TEXT'' \<and> fills red_text_node = Some [red_paint] \<and>
   red_paint \<in> set [red_paint] \<and> paint_type red_paint = ''SOLID'' \<and>
   visible red_paint \<noteq> Some False \<and>
   extractPaint red_paint Fill = Some (sample 1 0 0 Fill) \<and>
   extractPaint red_paint Text = Some (sample 1 0 0 Text) \<and>
   extractColorsFromNode red_text_node = [sample 1 0 0 Fill, sample 1 0 0 Text] \<and>
   deduplicateColors (extractColorsFromNode red_text_node) = [sample 1 0 0 Fill] \<and>
   source (hd (deduplicateColors (extractColorsFromNode red_text_node))) = Fill"
proof -
  have hyps: "node_type red_text_node = ''TEXT''" "fills red_text_node = Some [red_paint]"
    "red_paint \<in> set [red_paint]" "paint_type red_paint = ''SOLID''"
    "visible red_paint \<noteq> Some False"
    by (simp_all add: red_text_node_def red_paint_def)
  have paints: "extractPaint red_paint Fill = Some (sample 1 0 0 Fill)"
    "extractPaint red_paint Text = Some (sample 1 0 0 Text)"
    by (simp_all add: red_paint_def extractPaint_def sample_def)
  from text_fill_emitted_twice [OF hyps]
  have "\<forall>c\<in>set (deduplicateColors (extractColorsFromNode red_text_node)). source c \<noteq> Text"
    using spec [of _ "[red_text_node]"] by (metis append_Nil2 concat.simps list.simps(8,9))
  then have "source (hd (deduplicateColors (extractColorsFromNode red_text_node))) \<noteq> Text"
    by (simp add: red_text_node_dedup)
  then have "source (hd (deduplicateColors (extractColorsFromNode red_text_node))) = Fill"
    by (simp add: red_text_node_dedup)
  with hyps paints red_text_node_output red_text_node_dedup show ?thesis
    by blast
qed

subsection \<open>The export formatter\<close>

lemma split_on_nonempty: "split_on sep s \<noteq> []"
  by (induction s) (auto split: list.splits)

lemma split_on_no_sep: "sep \<notin> set w \<Longrightarrow> split_on sep w = [w]"
  by (induction w) auto

lemma split_on_append:
  "split_on sep (xs @ sep # ys) = split_on sep xs @ split_on sep ys"
proof (induction xs)
  case Nil
  show ?case by simp
next
  case (Cons c xs)
  obtain p ps where "split_on sep xs = p # ps"
    using split_on_nonempty [of sep xs] by (cases "split_on sep xs") auto
  with Cons show ?case by simp
qed

lemma join_with_Cons_head:
  "join_with sep ((c # p) # ps) = c # join_with sep (p # ps)"
  by (cases ps) simp_all

lemma join_split: "join_with sep (split_on sep s) = s"
proof (induction s)
  case Nil
  show ?case by simp
next
  case (Cons c s)
  obtain p ps where ps: "split_on sep s = p # ps"
    using split_on_nonempty [of sep s] by (cases "split_on sep s") auto
  show ?case
  proof (cases "c = sep")
    case True
    with Cons ps show ?thesis by simp
  next
    case False
    with Cons ps show ?thesis by (simp add: join_with_Cons_head)
  qed
qed

lemma split_keys:
  "join_with CHR ''-'' (take (length (split_on CHR ''-'' name) - 1) (split_on CHR ''-'' name)) =
     spec_group name \<and>
   split_on CHR ''-'' name ! (length (split_on CHR ''-'' name) - 1) = spec_shade name"
proof (cases "CHR ''-'' \<in> set name")
  case False
  then have sp: "split_on CHR ''-'' name = [name]" by (rule split_on_no_sep)
  from False have tw: "takeWhile (\<lambda>c. c \<noteq> CHR ''-'') (rev name) = rev name"
    by auto
  from False have dw: "dropWhile (\<lambda>c. c \<noteq> CHR ''-'') (rev name) = []"
    by auto
  show ?thesis
    unfolding spec_group_def spec_shade_def tw dw sp by simp
next
  case True
  then obtain pre w where name: "name = pre @ CHR ''-'' # w" and w: "CHR ''-'' \<notin> set w"
    by (metis split_list_last)
  have parts: "split_on CHR ''-'' name = split_on CHR ''-'' pre @ [w]"
    by (simp add: name split_on_append split_on_no_sep [OF w])
  have rv: "rev name = rev w @ CHR ''-'' # rev pre"
    by (simp add: name)
  have nosep: "x \<noteq> CHR ''-''" if "x \<in> set (rev w)" for x
    using that w by auto
  have "takeWhile (\<lambda>c. c \<noteq> CHR ''-'') (rev w @ CHR ''-'' # rev pre) =
      rev w @ takeWhile (\<lambda>c. c \<noteq> CHR ''-'') (CHR ''-'' # rev pre)"
    by (rule takeWhile_append2) (rule nosep)
  then have tw: "takeWhile (\<lambda>c. c \<noteq> CHR ''-'') (rev name) = rev w"
    by (simp add: rv)
  have "dropWhile (\<lambda>c. c \<noteq> CHR ''-'') (rev w @ CHR ''-'' # rev pre) =
      dropWhile (\<lambda>c. c \<noteq> CHR ''-'') (CHR ''-'' # rev pre)"
    by (rule dropWhile_append2) (rule nosep)
  then have dw: "dropWhile (\<lambda>c. c \<noteq> CHR ''-'') (rev name) = CHR ''-'' # rev pre"
    by (simp add: rv)
  show ?thesis
    by (simp add: parts join_split spec_group_def spec_shade_def tw dw)
qed

lemma last_hex_Nil: "last_hex P [] = None"
  by (simp add: last_hex_def)

lemma last_hex_snoc:
  "last_hex P (xs @ [c]) = (if P c then Some (hex c) else last_hex P xs)"
  by (simp add: last_hex_def)

lemma last_hex_none: "\<forall>c\<in>set xs. \<not> P c \<Longrightarrow> last_hex P xs = None"
  by (simp add: last_hex_def find_None_iff)

lemma objectPrototype_safe: "k \<notin> set objectPrototypeKeys \<Longrightarrow> objectPrototype k = None"
  by (auto simp: objectPrototype_def objectPrototypeKeys_def)

lemma nestedLoop_Cons:
  assumes "spec_group (tokenName c) \<notin> set objectPrototypeKeys"
  shows "nestedLoop objectPrototype nested (c # cs) =
     nestedLoop objectPrototype
       (nested(spec_group (tokenName c) \<mapsto>
          set_property
            (case nested (spec_group (tokenName c)) of None \<Rightarrow> Map.empty | Some inner \<Rightarrow> inner)
            (spec_shade (tokenName c)) (hex c))) cs"
proof -
  note keys = split_keys [of "tokenName c", THEN conjunct1] split_keys [of "tokenName c", THEN conjunct2]
  have step: "nestedLoop objectPrototype nested (c # cs) =
     (case nested (spec_group (tokenName c)) of
        Some inner \<Rightarrow>
          nestedLoop objectPrototype (nested(spec_group (tokenName c) \<mapsto>
            set_property inner (spec_shade (tokenName c)) (hex c))) cs
      | None \<Rightarrow>
          (case objectPrototype (spec_group (tokenName c)) of
             None \<Rightarrow>
               nestedLoop objectPrototype (nested(spec_group (tokenName c) \<mapsto>
                 set_property Map.empty (spec_shade (tokenName c)) (hex c))) cs
           | Some HostFunction \<Rightarrow>
               if spec_shade (tokenName c) \<in> set (readonlyOf (spec_group (tokenName c))) then None
               else nestedLoop objectPrototype nested cs
           | Some ProtoAccessor \<Rightarrow>
               nestedLoop (set_property objectPrototype (spec_shade (tokenName c))
                 (StringValue (hex c))) nested cs
           | Some (StringValue v) \<Rightarrow>
               if v = [] then
                 nestedLoop objectPrototype (nested(spec_group (tokenName c) \<mapsto>
                   set_property Map.empty (spec_shade (tokenName c)) (hex c))) cs
               else if spec_shade (tokenName c) = ''__proto__'' then
                 nestedLoop objectPrototype nested cs
               else None))"
    by (simp only: nestedLoop.simps Let_def keys)
  show ?thesis
    unfolding step
    by (cases "nested (spec_group (tokenName c))")
      (simp_all add: objectPrototype_safe [OF assms])
qed

lemma nestedLoop_append:
  assumes "\<forall>c\<in>set xs. spec_group (tokenName c) \<notin> set objectPrototypeKeys"
  shows "nestedLoop objectPrototype nested (xs @ ys) =
     (case nestedLoop objectPrototype nested xs of
        None \<Rightarrow> None
      | Some n \<Rightarrow> nestedLoop objectPrototype n ys)"
  using assms
proof (induction xs arbitrary: nested)
  case Nil
  show ?case by simp
next
  case (Cons c xs)
  then have c: "spec_group (tokenName c) \<notin> set objectPrototypeKeys"
    and xs: "\<forall>c\<in>set xs. spec_group (tokenName c) \<notin> set objectPrototypeKeys"
    by simp_all
  show ?case
    by (simp only: append_Cons nestedLoop_Cons [OF c] Cons.IH [OF xs])
qed

lemma nestedLoop_single:
  assumes "spec_group (tokenName c) \<notin> set objectPrototypeKeys"
    and "spec_shade (tokenName c) \<noteq> ''__proto__''"
  shows "nestedLoop objectPrototype nested [c] =
     Some (nested(spec_group (tokenName c) \<mapsto>
       (case nested (spec_group (tokenName c)) of None \<Rightarrow> Map.empty | Some inner \<Rightarrow> inner)
         (spec_shade (tokenName c) \<mapsto> hex c)))"
  using assms(2) by (simp add: nestedLoop_Cons [OF assms(1)] set_property_def del: nestedLoop.simps(2))

lemma spec_nested_Nil: "spec_nested [] = Map.empty"
  by (simp add: spec_nested_def)

lemma spec_nested_snoc:
  "spec_nested (xs @ [c]) =
     (spec_nested xs)(spec_group (tokenName c) \<mapsto>
       (case spec_nested xs (spec_group (tokenName c)) of None \<Rightarrow> Map.empty
        | Some inner \<Rightarrow> inner)(spec_shade (tokenName c) \<mapsto> hex c))"
proof (rule ext)
  fix gk
  let ?g = "spec_group (tokenName c)"
  let ?s = "spec_shade (tokenName c)"
  show "spec_nested (xs @ [c]) gk =
     ((spec_nested xs)(?g \<mapsto>
       (case spec_nested xs ?g of None \<Rightarrow> Map.empty | Some inner \<Rightarrow> inner)(?s \<mapsto> hex c))) gk"
  proof (cases "gk = ?g")
    case False
    then show ?thesis
      by (auto simp: spec_nested_def last_hex_snoc)
  next
    case True
    have inner: "(case spec_nested xs ?g of None \<Rightarrow> Map.empty | Some inner \<Rightarrow> inner) =
        (\<lambda>sk. last_hex (\<lambda>c. spec_group (tokenName c) = ?g \<and> spec_shade (tokenName c) = sk) xs)"
    proof (cases "?g \<in> (\<lambda>c. spec_group (tokenName c)) ` set xs")
      case True
      then show ?thesis by (simp add: spec_nested_def)
    next
      case False
      have "\<not> (spec_group (tokenName ca) = ?g \<and> spec_shade (tokenName ca) = sk)"
        if "ca \<in> set xs" for ca sk
      proof
        assume "spec_group (tokenName ca) = ?g \<and> spec_shade (tokenName ca) = sk"
        then have "?g = spec_group (tokenName ca)" by simp
        then have "?g \<in> (\<lambda>c. spec_group (tokenName c)) ` set xs"
          using that by (rule image_eqI)
        with False show False ..
      qed
      then have "last_hex (\<lambda>c. spec_group (tokenName c) = ?g \<and> spec_shade (tokenName c) = sk) xs
          = None" for sk
        by (intro last_hex_none) blast
      with False show ?thesis by (simp add: spec_nested_def)
    qed
    have "spec_nested (xs @ [c]) ?g =
        Some (\<lambda>sk. last_hex (\<lambda>c. spec_group (tokenName c) = ?g \<and> spec_shade (tokenName c) = sk)
                      (xs @ [c]))"
      by (simp add: spec_nested_def)
    also have "(\<lambda>sk. last_hex (\<lambda>c. spec_group (tokenName c) = ?g \<and> spec_shade (tokenName c) = sk)
                      (xs @ [c])) =
        (\<lambda>sk. last_hex (\<lambda>c. spec_group (tokenName c) = ?g \<and> spec_shade (tokenName c) = sk) xs)
          (?s \<mapsto> hex c)"
      by (rule ext) (simp add: last_hex_snoc)
    finally have E: "spec_nested (xs @ [c]) ?g =
        Some ((\<lambda>sk. last_hex (\<lambda>c. spec_group (tokenName c) = ?g \<and>
                                      spec_shade (tokenName c) = sk) xs)(?s \<mapsto> hex c))" .
    show ?thesis
      unfolding True by (simp only: E inner fun_upd_same)
  qed
qed

lemma nestedLoop_spec:
  assumes "\<forall>c\<in>set cs. safe_name (tokenName c)"
  shows "nestedLoop objectPrototype Map.empty cs = Some (spec_nested cs)"
  using assms
proof (induction cs rule: rev_induct)
  case Nil
  show ?case by (simp add: spec_nested_Nil)
next
  case (snoc c xs)
  then have IH: "nestedLoop objectPrototype Map.empty xs = Some (spec_nested xs)" by simp
  from snoc.prems have safe: "spec_group (tokenName c) \<notin> set objectPrototypeKeys"
    "spec_shade (tokenName c) \<noteq> ''__proto__''"
    and rest: "\<forall>c\<in>set xs. spec_group (tokenName c) \<notin> set objectPrototypeKeys"
    by (simp_all add: safe_name_def)
  show ?case
    by (simp only: nestedLoop_append [OF rest] IH option.case nestedLoop_single [OF safe]
        spec_nested_snoc)
qed

lemma flatLoop_append:
  "flatLoop flat (xs @ ys) = flatLoop (flatLoop flat xs) ys"
  by (induction xs arbitrary: flat) simp_all

lemma spec_flat_snoc: "spec_flat (xs @ [c]) = (spec_flat xs)(tokenName c \<mapsto> hex c)"
  by (rule ext) (simp add: spec_flat_def last_hex_snoc)

lemma flatLoop_spec:
  assumes "\<forall>c\<in>set cs. tokenName c \<noteq> ''__proto__''"
  shows "flatLoop Map.empty cs = spec_flat cs"
  using assms
proof (induction cs rule: rev_induct)
  case Nil
  show ?case by (simp add: spec_flat_def last_hex_Nil)
next
  case (snoc c xs)
  then show ?case
    by (simp add: flatLoop_append spec_flat_snoc set_property_def)
qed

lemma buildJson_safe:
  assumes "\<forall>c\<in>set cs. safe_name (tokenName c)"
  shows "buildJson cs pattern =
     Some (JObject [''colors'' \<mapsto>
       (if pattern = ''tailwind'' then json_of_nested (spec_nested cs)
        else json_of_flat (spec_flat cs))])"
proof -
  from assms have "\<forall>c\<in>set cs. tokenName c \<noteq> ''__proto__''"
    by (simp add: safe_name_def)
  then show ?thesis
    by (simp add: buildJson_def nestedLoop_spec [OF assms] flatLoop_spec)
qed

lemma spec_keys_decomp:
  assumes "CHR ''-'' \<notin> set w"
  shows "spec_group (pre @ CHR ''-'' # w) = pre \<and> spec_shade (pre @ CHR ''-'' # w) = w"
proof -
  have parts: "split_on CHR ''-'' (pre @ CHR ''-'' # w) = split_on CHR ''-'' pre @ [w]"
    by (simp add: split_on_append split_on_no_sep [OF assms])
  from split_keys [of "pre @ CHR ''-'' # w"] show ?thesis
    by (simp add: parts join_split)
qed

lemma safe_name_Nil: "safe_name []"
  by (simp add: safe_name_def spec_group_def spec_shade_def objectPrototypeKeys_def)

lemma hyphen_not_key: "CHR ''-'' \<in> set k \<Longrightarrow> k \<notin> set objectPrototypeKeys"
  by (auto simp: objectPrototypeKeys_def)

lemma empty_not_key: "[] \<notin> set objectPrototypeKeys"
  by (simp add: objectPrototypeKeys_def)

lemma safe_name_decomp:
  assumes "CHR ''-'' \<notin> set w" "CHR ''_'' \<notin> set w" "pre \<notin> set objectPrototypeKeys"
  shows "safe_name (pre @ CHR ''-'' # w)"
proof -
  have "CHR ''-'' \<in> set (pre @ CHR ''-'' # w)" by simp
  moreover have "CHR ''-'' \<notin> set ''__proto__''" by simp
  ultimately have "pre @ CHR ''-'' # w \<noteq> ''__proto__''" by metis
  moreover from assms(2) have "w \<noteq> ''__proto__''" by auto
  ultimately show ?thesis
    using spec_keys_decomp [OF assms(1), of pre] assms(3) by (simp add: safe_name_def)
qed

lemma digit_char_decimal:
  assumes "d < 10"
  shows "digit_char d \<in> set ''0123456789''"
proof -
  have "''0123456789abcdef'' ! d = (''0123456789'' @ ''abcdef'') ! d" by simp
  also have "\<dots> = ''0123456789'' ! d"
    using assms by (simp only: nth_append) simp
  finally have "digit_char d = ''0123456789'' ! d"
    by (simp only: digit_char_def)
  moreover have "''0123456789'' ! d \<in> set ''0123456789''"
    using assms by (intro nth_mem) simp
  ultimately show ?thesis by simp
qed

lemma digits_of_decimal: "set (digits_of 10 n) \<subseteq> set ''0123456789''"
proof (induction n rule: less_induct)
  case (less n)
  show ?case
  proof (cases "n < 10")
    case True
    then show ?thesis
      using digit_char_decimal [of n] by (simp add: digits_of_small)
  next
    case False
    then have "n div 10 < n" by simp
    from less [OF this] False digit_char_decimal [of "n mod 10"] show ?thesis
      by (simp add: digits_of_step)
  qed
qed

lemma number_toString_plain:
  assumes "0 \<le> i"
  shows "CHR ''-'' \<notin> set (number_toString 10 i) \<and> CHR ''_'' \<notin> set (number_toString 10 i)"
proof -
  have "set (number_toString 10 i) \<subseteq> set ''0123456789''"
    using assms digits_of_decimal [of "nat i"] by (simp add: number_toString_def)
  then show ?thesis by auto
qed

lemma lightnessToShade_nonneg: "0 \<le> lightnessToShade l"
  using lightnessToShade_mem [of l] by (auto simp: shades_def)

lemma lightnessToAntLevel_nonneg: "0 \<le> lightnessToAntLevel l"
  by (simp add: lightnessToAntLevel_def)

lemma role_string_plain:
  "CHR ''-'' \<notin> set (role_string ro) \<and> role_string ro \<notin> set objectPrototypeKeys"
  by (cases ro) (simp_all add: objectPrototypeKeys_def)

lemma semanticMap_plain:
  "CHR ''-'' \<notin> set (semanticMap ro) \<and> CHR ''_'' \<notin> set (semanticMap ro)"
  by (cases ro) simp_all

lemma semanticMapAnt_plain:
  "CHR ''-'' \<notin> set (semanticMapAnt ro) \<and> semanticMapAnt ro \<notin> set objectPrototypeKeys"
  by (cases ro) (simp_all add: objectPrototypeKeys_def)

lemma color_not_key: "''color'' \<notin> set objectPrototypeKeys"
  by (simp add: objectPrototypeKeys_def)

lemma semanticMapWcag_safe: "safe_name (''color-'' @ semanticMapWcag l ro)"
proof (cases "ro = gray")
  case False
  have "safe_name (''color'' @ CHR ''-'' # semanticMapWcag l ro)"
    using False by (intro safe_name_decomp color_not_key; cases ro) simp_all
  then show ?thesis by simp
next
  case True
  have light: "safe_name (''color-neutral'' @ CHR ''-'' # ''light'')"
    by (intro safe_name_decomp hyphen_not_key) simp_all
  have dark: "safe_name (''color-neutral'' @ CHR ''-'' # ''dark'')"
    by (intro safe_name_decomp hyphen_not_key) simp_all
  from light dark True show ?thesis
    by (cases "l > 0.5") simp_all
qed

lemma candidateName_safe: "safe_name (candidateName pattern customPrefix c)"
proof -
  obtain h s l where hsl: "rgbToHsl (r c) (g c) (b c) = (h, s, l)"
    by (cases "rgbToHsl (r c) (g c) (b c)") auto
  let ?role = "detectColorRole (r c) (g c) (b c)"
  let ?shade = "number_toString 10 (lightnessToShade l)"
  let ?level = "number_toString 10 (lightnessToAntLevel l)"
  let ?prefix = "if trim customPrefix = [] then ''color'' else trim customPrefix"
  note shade_plain = number_toString_plain [OF lightnessToShade_nonneg [of l]]
  note level_plain = number_toString_plain [OF lightnessToAntLevel_nonneg [of l]]
  have "safe_name (''color'' @ CHR ''-'' # semanticMap ?role)"
    using semanticMap_plain [of ?role] by (intro safe_name_decomp color_not_key) simp_all
  then have material500: "safe_name (''color-'' @ semanticMap ?role)"
    by simp
  have "safe_name ((''color-'' @ semanticMap ?role) @ CHR ''-'' # ?shade)"
    using shade_plain by (intro safe_name_decomp hyphen_not_key) simp_all
  then have material: "safe_name (''color-'' @ semanticMap ?role @ ''-'' @ ?shade)"
    by simp
  have "safe_name (role_string ?role @ CHR ''-'' # ?shade)"
    using shade_plain role_string_plain [of ?role] by (intro safe_name_decomp) simp_all
  then have tailwind: "safe_name (role_string ?role @ ''-'' @ ?shade)"
    by simp
  have "safe_name (semanticMapAnt ?role @ CHR ''-'' # ?level)"
    using level_plain semanticMapAnt_plain [of ?role] by (intro safe_name_decomp) simp_all
  then have antd: "safe_name (semanticMapAnt ?role @ ''-'' @ ?level)"
    by simp
  have "safe_name ((?prefix @ ''-'' @ role_string ?role) @ CHR ''-'' # ?shade)"
    using shade_plain by (intro safe_name_decomp hyphen_not_key) simp_all
  then have custom: "safe_name (?prefix @ ''-'' @ role_string ?role @ ''-'' @ ?shade)"
    by simp
  note wcag = semanticMapWcag_safe [of l ?role]
  consider "pattern = ''material''" | "pattern = ''tailwind''" | "pattern = ''antd''"
    | "pattern = ''wcag''" | "pattern = ''custom''"
    | "pattern \<notin> {''material'', ''tailwind'', ''antd'', ''wcag'', ''custom''}"
    by auto
  then show ?thesis
  proof cases
    case 1
    have "candidateName pattern customPrefix c =
        (if lightnessToShade l = 500 then ''color-'' @ semanticMap ?role
         else ''color-'' @ semanticMap ?role @ ''-'' @ ?shade)"
      by (simp add: candidateName_def hsl Let_def 1)
    with material500 material show ?thesis by (auto split: if_splits)
  next
    case 2
    have "candidateName pattern customPrefix c = role_string ?role @ ''-'' @ ?shade"
      by (simp add: candidateName_def hsl Let_def 2)
    with tailwind show ?thesis by (simp only:)
  next
    case 3
    have "candidateName pattern customPrefix c = semanticMapAnt ?role @ ''-'' @ ?level"
      by (simp add: candidateName_def hsl Let_def 3)
    with antd show ?thesis by (simp only:)
  next
    case 4
    have "candidateName pattern customPrefix c = ''color-'' @ semanticMapWcag l ?role"
      by (simp add: candidateName_def hsl Let_def 4)
    with wcag show ?thesis by (simp only:)
  next
    case 5
    have "candidateName pattern customPrefix c =
        ?prefix @ ''-'' @ role_string ?role @ ''-'' @ ?shade"
      by (simp add: candidateName_def hsl Let_def 5)
    with custom show ?thesis by (simp only:)
  next
    case 6
    then have "candidateName pattern customPrefix c = []"
      by (rule candidateName_unknown)
    with safe_name_Nil show ?thesis by (simp only:)
  qed
qed

lemma candidateName_not_inherited:
  "candidateName pattern customPrefix c \<notin> set objectPrototypeKeys"
  using candidateName_shape [of pattern customPrefix c] hyphen_not_key empty_not_key
  by metis

lemma suffixed_safe:
  assumes "0 \<le> i"
  shows "safe_name (candidateName pattern customPrefix c @ ''-'' @ number_toString 10 i)"
proof -
  have "safe_name (candidateName pattern customPrefix c @ CHR ''-'' # number_toString 10 i)"
    using number_toString_plain [OF assms] candidateName_not_inherited
    by (intro safe_name_decomp) simp_all
  then show ?thesis by simp
qed

lemma nameColors_safe:
  "c \<in> set (nameColors pattern customPrefix roleCount cs) \<Longrightarrow> safe_name (tokenName c)"
proof (induction cs arbitrary: roleCount)
  case Nil
  then show ?case by simp
next
  case (Cons c0 cs)
  let ?name = "candidateName pattern customPrefix c0"
  show ?case
  proof (cases "roleCount ?name")
    case None
    with Cons.prems have "tokenName c = ?name \<or>
        c \<in> set (nameColors pattern customPrefix (roleCount(?name \<mapsto> 0)) cs)"
      by (auto simp: Let_def)
    then show ?thesis
      using candidateName_safe Cons.IH by metis
  next
    case (Some n)
    with Cons.prems have "tokenName c = ?name @ ''-'' @ number_toString 10 (int (n + 1)) \<or>
        c \<in> set (nameColors pattern customPrefix (roleCount(?name \<mapsto> n + 1)) cs)"
      by (auto simp: Let_def)
    moreover have "safe_name (?name @ ''-'' @ number_toString 10 (int (n + 1)))"
      by (rule suffixed_safe) simp
    ultimately show ?thesis
      using Cons.IH by metis
  qed
qed

lemma assignTokenNames_safe:
  "\<forall>c\<in>set (assignTokenNames cs pattern customPrefix). safe_name (tokenName c)"
  by (auto simp: assignTokenNames_def dest: nameColors_safe)

lemma three_blues_named:
  "assignTokenNames three_blues ''tailwind'' x =
     [(sample 0 0 1 Fill)\<lparr>tokenName := ''blue-500''\<rparr>,
      (sample 0 (fdiv 51 255) 1 Fill)\<lparr>tokenName := ''blue-500-1''\<rparr>,
      (sample (fdiv 51 255) 0 1 Fill)\<lparr>tokenName := ''blue-500-2''\<rparr>]"
  using channel_51
  by (simp add: assignTokenNames_def three_blues_def candidateName_blue_green
      candidateName_blue_red Let_def number_toString_decimal)

lemma toHex_51: "toHex (fdiv 51 255) = ''33''"
  using toHex_byte [of 51] by (simp add: digit_char_def)

lemma hex_three_blues:
  "rgbToHex 0 (fdiv 51 255) 1 = ''#0033FF''" "rgbToHex (fdiv 51 255) 0 1 = ''#3300FF''"
  by (simp_all add: rgbToHex_def toHex_51 toHex_zero toHex_one toUpperCase_def upper_char_def)

lemma spec_keys_examples:
  "spec_group ''blue-500'' = ''blue''" "spec_shade ''blue-500'' = ''500''"
  "spec_group ''blue-500-1'' = ''blue-500''" "spec_shade ''blue-500-1'' = ''1''"
  "spec_group ''blue-500-2'' = ''blue-500''" "spec_shade ''blue-500-2'' = ''2''"
  by (simp_all add: spec_group_def spec_shade_def)

text \<open>
  Token names whose group key is an inherited name; the naming engine produces none of
  them. Under \<^verbatim>\<open>constructor-500\<close> the hex string is stored in the host's function
  \<^verbatim>\<open>Object\<close> and the document stays empty; \<^verbatim>\<open>toString-length\<close> makes the loop throw;
  \<^verbatim>\<open>__proto__-x\<close> stores the hex string in \<^verbatim>\<open>Object.prototype\<close>, and a later \<^verbatim>\<open>x-1\<close>
  finds that string where it expects a group, and throws.
\<close>

lemma buildJson_inherited_key:
  "buildJson [(sample 0 0 1 Fill)\<lparr>tokenName := ''constructor-500''\<rparr>] ''tailwind'' =
     Some (JObject [''colors'' \<mapsto> json_of_nested Map.empty])"
  "buildJson [(sample 0 0 1 Fill)\<lparr>tokenName := ''toString-length''\<rparr>] ''tailwind'' = None"
  "buildJson [(sample 0 0 1 Fill)\<lparr>tokenName := ''__proto__-x''\<rparr>,
              (sample 0 0 1 Fill)\<lparr>tokenName := ''x-1''\<rparr>] ''tailwind'' = None"
  by (simp_all add: buildJson_def objectPrototype_def objectPrototypeKeys_def readonlyOf_def
      set_property_def hex_pure_blue)

lemma primary_blue_safe: "\<forall>c\<in>set [primary_blue]. safe_name (tokenName c)"
  by (simp add: primary_blue_def safe_name_def spec_group_def spec_shade_def
      objectPrototypeKeys_def)

lemma primary_blue_flat: "spec_flat [primary_blue] = [''color-primary'' \<mapsto> ''#1A73E8'']"
  by (auto simp: spec_flat_def last_hex_def primary_blue_def)

text \<open>
  Claim C7. For every colour sequence named by \<open>assignTokenNames\<close> (under any pattern and
  prefix), \<open>buildJson\<close> with the pattern \<^verbatim>\<open>tailwind\<close> returns the document whose member
  \<^verbatim>\<open>colors\<close> is the two-level mapping \<open>spec_nested\<close>: each token name is split at its last
  hyphen into group key and shade key, and the hex string stands under group, then shade.
  With every other pattern it returns the document whose member \<^verbatim>\<open>colors\<close> is the
  one-level mapping \<open>spec_flat\<close> from token name to hex string. The same holds for every
  sequence of colours whose token names are \<open>safe_name\<close>, whoever named them.
\<close>

theorem buildJson_of_named:
  "buildJson (assignTokenNames cs namingPattern customPrefix) ''tailwind'' =
     Some (JObject [''colors'' \<mapsto>
       json_of_nested (spec_nested (assignTokenNames cs namingPattern customPrefix))]) \<and>
   (pattern \<noteq> ''tailwind'' \<longrightarrow>
      buildJson (assignTokenNames cs namingPattern customPrefix) pattern =
        Some (JObject [''colors'' \<mapsto>
          json_of_flat (spec_flat (assignTokenNames cs namingPattern customPrefix))])) \<and>
   ((\<forall>c\<in>set colors. safe_name (tokenName c)) \<longrightarrow>
      buildJson colors pattern =
        Some (JObject [''colors'' \<mapsto>
          (if pattern = ''tailwind'' then json_of_nested (spec_nested colors)
           else json_of_flat (spec_flat colors))]))"
  using buildJson_safe [OF assignTokenNames_safe] buildJson_safe [of colors pattern] by simp

theorem buildJson_of_named_witness:
  "''material'' \<noteq> ''tailwind'' \<and>
   buildJson (assignTokenNames three_blues ''tailwind'' []) ''tailwind'' =
     Some (JObject [''colors'' \<mapsto>
       json_of_nested (spec_nested (assignTokenNames three_blues ''tailwind'' []))]) \<and>
   buildJson (assignTokenNames three_blues ''tailwind'' []) ''material'' =
     Some (JObject [''colors'' \<mapsto>
       json_of_flat (spec_flat (assignTokenNames three_blues ''tailwind'' []))]) \<and>
   spec_nested (assignTokenNames three_blues ''tailwind'' []) ''blue'' =
     Some [''500'' \<mapsto> ''#0000FF''] \<and>
   spec_nested (assignTokenNames three_blues ''tailwind'' []) ''blue-500'' =
     Some [''1'' \<mapsto> ''#0033FF'', ''2'' \<mapsto> ''#3300FF''] \<and>
   spec_nested (assignTokenNames three_blues ''tailwind'' []) ''red'' = None \<and>
   spec_flat (assignTokenNames three_blues ''tailwind'' []) =
     [''blue-500'' \<mapsto> ''#0000FF'', ''blue-500-1'' \<mapsto> ''#0033FF'',
      ''blue-500-2'' \<mapsto> ''#3300FF''] \<and>
   safe_name (tokenName primary_blue) \<and>
   buildJson [primary_blue] ''material'' =
     Some (JObject [''colors'' \<mapsto> json_of_flat [''color-primary'' \<mapsto> ''#1A73E8'']])"
proof -
  have n1: "spec_nested (assignTokenNames three_blues ''tailwind'' []) ''blue'' =
     Some [''500'' \<mapsto> ''#0000FF'']"
    by (auto simp: three_blues_named spec_nested_def spec_keys_examples last_hex_def
        hex_pure_blue hex_three_blues)
  have n2: "spec_nested (assignTokenNames three_blues ''tailwind'' []) ''blue-500'' =
     Some [''1'' \<mapsto> ''#0033FF'', ''2'' \<mapsto> ''#3300FF'']"
    by (auto simp: three_blues_named spec_nested_def spec_keys_examples last_hex_def
        hex_pure_blue hex_three_blues)
  have n3: "spec_nested (assignTokenNames three_blues ''tailwind'' []) ''red'' = None"
    by (simp add: three_blues_named spec_nested_def spec_keys_examples)
  have f: "spec_flat (assignTokenNames three_blues ''tailwind'' []) =
     [''blue-500'' \<mapsto> ''#0000FF'', ''blue-500-1'' \<mapsto> ''#0033FF'',
      ''blue-500-2'' \<mapsto> ''#3300FF'']"
    by (auto simp: three_blues_named spec_flat_def last_hex_def hex_pure_blue hex_three_blues)
  have ne: "''material'' \<noteq> ''tailwind''" by simp
  from buildJson_of_named [of _ _ _ "''material''" "[primary_blue]"] primary_blue_safe
  have "buildJson [primary_blue] ''material'' =
      Some (JObject [''colors'' \<mapsto> json_of_flat (spec_flat [primary_blue])])"
    by simp
  then have g1: "buildJson [primary_blue] ''material'' =
      Some (JObject [''colors'' \<mapsto> json_of_flat [''color-primary'' \<mapsto> ''#1A73E8'']])"
    by (simp only: primary_blue_flat)
  from primary_blue_safe have g2: "safe_name (tokenName primary_blue)" by simp
  from buildJson_of_named [of three_blues "''tailwind''" "[]" "''material''"] ne n1 n2 n3 f g1 g2
  show ?thesis by blast
qed


end
